theory Spec2Isabelle
  imports Complex_Main "HOL-Library.Sublist" "HOL-Library.AList"
begin

section \<open>Numbers\<close>

text \<open>
  The tile generator of \<^verbatim>\<open>src/src/tileGenerator.js\<close> computes with JavaScript numbers,
  which are IEEE doubles. The model computes with exact integers (\<^typ>\<open>int\<close>) for image
  dimensions, tile indices and levels, and with exact rationals (\<^typ>\<open>rat\<close>) for the scale
  of a level, which is a power of two with an integer exponent, possibly negative.

  The two agree on a bounded domain only, and every theorem about the geometry is stated on
  that domain (\<open>dims_in_range\<close>, \<open>level_in_range\<close>, \<open>index_in_range\<close> below):
  \<^item> For dimensions and tile sizes below \<open>2^31\<close> the quotient
    \<^verbatim>\<open>maxDimension / tileSize\<close> is either a power of two or further than a factor
    \<open>1 + 2^-31\<close> away from the next lower one, so that a \<^verbatim>\<open>Math.log2\<close> that is exact on
    powers of two and accurate to a few units in the last place elsewhere has the ceiling
    of the exact binary logarithm. Beyond that the rounding of \<^verbatim>\<open>Math.log2\<close> shows: for
    the width \<open>2^49 + 1\<close> and tiles of 256 the code computes 42 levels where the exact
    ceiling gives 43.
  \<^item> \<^verbatim>\<open>Math.pow(2, e)\<close> is the exact power for \<open>-1074 \<le> e \<le> 1023\<close>; it is
    \<^verbatim>\<open>Infinity\<close> above and 0 below. With the dimensions as above the level count lies
    between -29 and 32, and for a level between -900 and 900 the exponent
    \<open>maxLevels - level - 1\<close> lies between -930 and 931: the scale, the scaled dimensions
    and the products with the scale are then exact doubles far from overflow and underflow.
  \<^item> For a tile index below \<open>2^22\<close> the product \<^verbatim>\<open>x * tileSize\<close> is below \<open>2^53\<close> and
    exact. The route of the server admits digits only for the indices, so they are
    not negative.
  The level of a request comes from \<^verbatim>\<open>parseInt\<close> without a range check, so levels outside
  that range, and the level \<^verbatim>\<open>NaN\<close>, reach the code; they are outside the domain of the
  theorems below.
\<close>

text \<open>
  \<^verbatim>\<open>Math.ceil(Math.log2(m / t))\<close> for positive integers \<open>m\<close> and \<open>t\<close> below \<open>2^31\<close>,
  where the rounding of \<^verbatim>\<open>Math.log2\<close> does not change the ceiling. For \<open>t < m\<close> it is
  the least \<open>k\<close> with \<open>m \<le> t * 2^k\<close>, found by \<open>log2_up\<close>; otherwise it is \<open>- j\<close> for the
  greatest \<open>j\<close> with \<open>m * 2^j \<le> t\<close>, found by \<open>log2_down\<close>.
\<close>

function log2_up :: "int \<Rightarrow> int \<Rightarrow> nat \<Rightarrow> nat" where
  "log2_up m t k = (if t \<le> 0 \<or> m \<le> t * 2 ^ k then k else log2_up m t (Suc k))"
  by pat_completeness auto
termination
proof (relation "measure (\<lambda>(m, t, k). nat (m - t * 2 ^ k))")
  show "wf (measure (\<lambda>(m, t, k). nat (m - t * 2 ^ k)))"
    by simp
next
  fix m t :: int and k :: nat
  assume "\<not> (t \<le> 0 \<or> m \<le> t * 2 ^ k)"
  then have "0 < t" and "t * 2 ^ k < m"
    by simp_all
  moreover from \<open>0 < t\<close> have "t * 2 ^ k < t * 2 ^ Suc k"
    by simp
  ultimately show "((m, t, Suc k), (m, t, k)) \<in> measure (\<lambda>(m, t, k). nat (m - t * 2 ^ k))"
    by simp
qed

function log2_down :: "int \<Rightarrow> int \<Rightarrow> nat \<Rightarrow> nat" where
  "log2_down m t j = (if m \<le> 0 \<or> t < m * 2 ^ Suc j then j else log2_down m t (Suc j))"
  by pat_completeness auto
termination
proof (relation "measure (\<lambda>(m, t, j). nat (t - m * 2 ^ j))")
  show "wf (measure (\<lambda>(m, t, j). nat (t - m * 2 ^ j)))"
    by simp
next
  fix m t :: int and j :: nat
  assume "\<not> (m \<le> 0 \<or> t < m * 2 ^ Suc j)"
  then have "0 < m" and le: "m * (2 * 2 ^ j) \<le> t"
    by simp_all
  from \<open>0 < m\<close> have "m * 2 ^ j < m * (2 * 2 ^ j)"
    by simp
  from this le have "m * 2 ^ j < t"
    by (rule less_le_trans)
  with \<open>0 < m\<close> show "((m, t, Suc j), (m, t, j)) \<in> measure (\<lambda>(m, t, j). nat (t - m * 2 ^ j))"
    by simp
qed

declare log2_up.simps [simp del] log2_down.simps [simp del]

definition ceil_log2 :: "int \<Rightarrow> int \<Rightarrow> int" where
  "ceil_log2 m t = (if t < m then int (log2_up m t 0) else - int (log2_down m t 0))"

text \<open>
  \<^verbatim>\<open>Math.pow(2, e)\<close> for an integer exponent between -1074 and 1023, where the double is
  the exact power of two. Outside that range the code has \<^verbatim>\<open>Infinity\<close> or 0 and the model
  does not describe it.
\<close>

definition pow2 :: "int \<Rightarrow> rat" where
  "pow2 e = (if 0 \<le> e then 2 ^ nat e else 1 / 2 ^ nat (- e))"

section \<open>Pyramid geometry\<close>

text \<open>
  \<^verbatim>\<open>calculateLevels(width, height, tileSize)\<close>:
  \<^verbatim>\<open>Math.ceil(Math.log2(Math.max(width, height) / tileSize)) + 1\<close>.
\<close>

definition calculateLevels :: "int \<Rightarrow> int \<Rightarrow> int \<Rightarrow> int" where
  "calculateLevels width height tileSize =
     (let maxDimension = max width height
      in ceil_log2 maxDimension tileSize + 1)"

text \<open>
  The first lines of \<^verbatim>\<open>generateTile\<close>: the scale factor of a level,
  \<^verbatim>\<open>Math.pow(2, maxLevels - level - 1)\<close>, and a dimension scaled to the level,
  \<^verbatim>\<open>Math.ceil(dim / scale)\<close>.
\<close>

definition levelScale :: "int \<Rightarrow> int \<Rightarrow> int \<Rightarrow> int \<Rightarrow> rat" where
  "levelScale originalWidth originalHeight tileSize level =
     (let maxLevels = calculateLevels originalWidth originalHeight tileSize
      in pow2 (maxLevels - level - 1))"

definition scaledDim :: "int \<Rightarrow> rat \<Rightarrow> int" where
  "scaledDim d scale = \<lceil>of_int d / scale\<rceil>"

text \<open>The domain on which the exact arithmetic above is the arithmetic of the code.\<close>

definition dims_in_range :: "int \<Rightarrow> int \<Rightarrow> int \<Rightarrow> bool" where
  "dims_in_range width height tileSize \<longleftrightarrow>
     0 < width \<and> width < 2 ^ 31 \<and> 0 < height \<and> height < 2 ^ 31
     \<and> 0 < tileSize \<and> tileSize < 2 ^ 31"

definition level_in_range :: "int \<Rightarrow> bool" where
  "level_in_range level \<longleftrightarrow> - 900 \<le> level \<and> level \<le> 900"

definition index_in_range :: "int \<Rightarrow> bool" where
  "index_in_range i \<longleftrightarrow> 0 \<le> i \<and> i < 2 ^ 22"

text \<open>
  A rectangle: a tile in the coordinates of a level, or the part of the source image that
  \<^verbatim>\<open>.extract({left, top, width, height})\<close> reads.
\<close>

record region =
  r_left :: int
  r_top :: int
  r_width :: int
  r_height :: int

text \<open>
  Lines 101 to 118 of \<^verbatim>\<open>generateTile\<close>: the position and size of tile \<open>(x, y)\<close> at the
  scaled level. \<open>None\<close> is the early \<^verbatim>\<open>return null\<close> of a tile outside the image bounds.
\<close>

definition tileRegion :: "int \<Rightarrow> int \<Rightarrow> int \<Rightarrow> int \<Rightarrow> int \<Rightarrow> int \<Rightarrow> region option" where
  "tileRegion level x y tileSize originalWidth originalHeight =
     (let scale = levelScale originalWidth originalHeight tileSize level;
          scaledWidth = scaledDim originalWidth scale;
          scaledHeight = scaledDim originalHeight scale;
          left = x * tileSize;
          top' = y * tileSize;
          width = min tileSize (scaledWidth - left);
          height = min tileSize (scaledHeight - top')
      in if left \<ge> scaledWidth \<or> top' \<ge> scaledHeight then None
         else Some \<lparr>r_left = left, r_top = top', r_width = width, r_height = height\<rparr>)"

text \<open>
  Lines 125 to 141: the region of the original image handed to \<^verbatim>\<open>.extract\<close>. Position and
  size are multiplied by the scale (\<^verbatim>\<open>Math.floor\<close>, \<^verbatim>\<open>Math.ceil\<close>), then width and height
  are cut at the image edge with \<^verbatim>\<open>Math.min\<close>.
\<close>

definition toSourceRegion :: "region \<Rightarrow> rat \<Rightarrow> int \<Rightarrow> int \<Rightarrow> region" where
  "toSourceRegion r scale originalWidth originalHeight =
     (let originalLeft = \<lfloor>of_int (r_left r) * scale\<rfloor>;
          originalTop = \<lfloor>of_int (r_top r) * scale\<rfloor>;
          originalWidth_region = \<lceil>of_int (r_width r) * scale\<rceil>;
          originalHeight_region = \<lceil>of_int (r_height r) * scale\<rceil>
      in \<lparr>r_left = originalLeft, r_top = originalTop,
          r_width = min originalWidth_region (originalWidth - originalLeft),
          r_height = min originalHeight_region (originalHeight - originalTop)\<rparr>)"

section \<open>Files, codec and state\<close>

text \<open>
  The three directories of the generator, with the paths \<^verbatim>\<open>path.join\<close> builds in them:
  \<^verbatim>\<open>originalDir/name\<close>, \<^verbatim>\<open>tilesDir/imageId/level/x_y.jpg\<close> and \<^verbatim>\<open>uploadsDir/temp/name\<close>.
  Image ids and file names hold no path separator, so that a path determines its parts.
\<close>

datatype path = OriginalPath string | TilePath string int int int | TempPath string

datatype kind = RegularFile | Directory

text \<open>
  What \<^verbatim>\<open>getImageMetadata\<close> returns. Of its fields only width, height and format are read
  by the rest of the code; \<^verbatim>\<open>pages\<close> is kept, the colour fields are left out.
\<close>

record metadata =
  md_width :: int
  md_height :: int
  md_format :: string
  md_pages :: nat

text \<open>
  Every rejected promise of the source is an error value: the thrown
  \<^verbatim>\<open>Error('Image not found: ...')\<close>, a rejection of the codec (sharp), a rejection of
  \<^verbatim>\<open>fs\<close>.
\<close>

datatype error = NotFound string | CodecFailure | IOFailure

text \<open>
  The codec is outside the program. Its calls are recorded in a log: a metadata probe
  \<^verbatim>\<open>sharp(path).metadata()\<close>, and a render
  \<^verbatim>\<open>sharp(path).extract(region).resize(w, h).jpeg().toFile(out)\<close>.
\<close>

datatype codec_call = Probe path | Render path region int int path

text \<open>
  What the outside world answers: the metadata of a file (\<open>None\<close>: the probe rejects),
  whether a render succeeds, and which file system calls fail for a reason other than a
  missing entry. \<open>readdir_originals_fails\<close> is the rejection of
  \<^verbatim>\<open>fs.readdir(this.originalDir)\<close>, \<open>readdir_fails\<close> the rejection of \<^verbatim>\<open>fs.readdir(tempDir)\<close>.
\<close>

record env =
  probe :: "path \<Rightarrow> metadata option"
  render_ok :: "path \<Rightarrow> region \<Rightarrow> int \<Rightarrow> int \<Rightarrow> bool"
  mkdir_fails :: "path \<Rightarrow> bool"
  rename_fails :: "path \<Rightarrow> path \<Rightarrow> bool"
  readdir_originals_fails :: bool
  readdir_fails :: bool
  stat_fails :: "path \<Rightarrow> bool"
  unlink_fails :: "path \<Rightarrow> bool"

text \<open>
  The state: the listing of \<^verbatim>\<open>originalDir\<close> in the order \<^verbatim>\<open>readdir\<close> gives it, the tile
  files that exist, the entries of the temp directory in \<^verbatim>\<open>readdir\<close> order (looked up by
  name with \<^const>\<open>map_of\<close>), the in-memory \<^verbatim>\<open>metadataCache\<close>, and the log of codec calls.
\<close>

record world =
  originals :: "string list"
  tiles :: "path set"
  temp :: "(string \<times> kind) list"
  metadataCache :: "string \<rightharpoonup> metadata"
  codec_log :: "codec_call list"

text \<open>\<^verbatim>\<open>fs.access(p)\<close> resolves.\<close>

definition fs_access :: "world \<Rightarrow> path \<Rightarrow> bool" where
  "fs_access w p =
     (case p of
        OriginalPath name \<Rightarrow> name \<in> set (originals w)
      | TilePath imageId level x y \<Rightarrow> p \<in> tiles w
      | TempPath name \<Rightarrow> map_of (temp w) name \<noteq> None)"

text \<open>A file written at \<open>p\<close> (\<^verbatim>\<open>.toFile(p)\<close>).\<close>

definition fs_writeFile :: "world \<Rightarrow> path \<Rightarrow> world" where
  "fs_writeFile w p =
     (case p of
        OriginalPath name \<Rightarrow>
          (if name \<in> set (originals w) then w else w\<lparr>originals := originals w @ [name]\<rparr>)
      | TilePath imageId level x y \<Rightarrow> w\<lparr>tiles := insert p (tiles w)\<rparr>
      | TempPath name \<Rightarrow> w\<lparr>temp := AList.update name RegularFile (temp w)\<rparr>)"

text \<open>
  \<^verbatim>\<open>fs.rename(temp/name, originalDir/newName)\<close>: it rejects when the entry is missing or
  the outside world refuses; otherwise the entry leaves the temp directory and the new name
  is in \<^verbatim>\<open>originalDir\<close> (replacing a file of that name).
\<close>

definition fs_rename :: "env \<Rightarrow> world \<Rightarrow> string \<Rightarrow> string \<Rightarrow> error + world" where
  "fs_rename env w name newName =
     (if map_of (temp w) name = None \<or> rename_fails env (TempPath name) (OriginalPath newName)
      then Inl IOFailure
      else Inr (w\<lparr>temp := AList.delete name (temp w),
                  originals := (if newName \<in> set (originals w) then originals w
                                else originals w @ [newName])\<rparr>))"

text \<open>\<^verbatim>\<open>fs.stat(temp/name)\<close> and \<^verbatim>\<open>fs.unlink(temp/name)\<close>.\<close>

definition fs_stat :: "env \<Rightarrow> world \<Rightarrow> string \<Rightarrow> error + kind" where
  "fs_stat env w name =
     (if stat_fails env (TempPath name) then Inl IOFailure
      else case map_of (temp w) name of None \<Rightarrow> Inl IOFailure | Some k \<Rightarrow> Inr k)"

definition fs_unlink :: "env \<Rightarrow> world \<Rightarrow> string \<Rightarrow> error + world" where
  "fs_unlink env w name =
     (if unlink_fails env (TempPath name) \<or> map_of (temp w) name = None then Inl IOFailure
      else Inr (w\<lparr>temp := AList.delete name (temp w)\<rparr>))"

text \<open>
  \<^verbatim>\<open>path.extname\<close> of a file name: from the last dot to the end; empty when there is no
  dot, when the only dot is the first character, and for the name \<^verbatim>\<open>..\<close>.
\<close>

definition extname :: "string \<Rightarrow> string" where
  "extname name =
     (let ext_rev = takeWhile (\<lambda>c. c \<noteq> CHR ''.'') (rev name)
      in if CHR ''.'' \<notin> set name \<or> length ext_rev + 1 = length name \<or> name = ''..'' then []
         else CHR ''.'' # rev ext_rev)"

section \<open>The tile generator\<close>

text \<open>\<^verbatim>\<open>getImageMetadata(imagePath)\<close>: one probe of the codec.\<close>

definition getImageMetadata :: "env \<Rightarrow> world \<Rightarrow> path \<Rightarrow> (error + metadata) \<times> world" where
  "getImageMetadata env w imagePath =
     (let w' = w\<lparr>codec_log := codec_log w @ [Probe imagePath]\<rparr>
      in case probe env imagePath of
           None \<Rightarrow> (Inl CodecFailure, w')
         | Some metadata \<Rightarrow> (Inr metadata, w'))"

text \<open>\<^verbatim>\<open>getCachedMetadata(imageId, imagePath)\<close>: the cache first, else probe and store.\<close>

definition getCachedMetadata ::
    "env \<Rightarrow> world \<Rightarrow> string \<Rightarrow> path \<Rightarrow> (error + metadata) \<times> world" where
  "getCachedMetadata env w imageId imagePath =
     (case metadataCache w imageId of
        Some metadata \<Rightarrow> (Inr metadata, w)
      | None \<Rightarrow>
          (case getImageMetadata env w imagePath of
             (Inl e, w') \<Rightarrow> (Inl e, w')
           | (Inr metadata, w') \<Rightarrow>
               (Inr metadata, w'\<lparr>metadataCache := (metadataCache w')(imageId \<mapsto> metadata)\<rparr>)))"

text \<open>
  \<^verbatim>\<open>generateTile\<close>. \<open>Inr None\<close> is \<^verbatim>\<open>return null\<close>, before any directory or file is made;
  \<open>Inr (Some outputPath)\<close> is the normal return after the codec wrote the tile.
\<close>

definition generateTile ::
    "env \<Rightarrow> world \<Rightarrow> path \<Rightarrow> path \<Rightarrow> int \<Rightarrow> int \<Rightarrow> int \<Rightarrow> int \<Rightarrow> int \<Rightarrow> int
      \<Rightarrow> (error + path option) \<times> world" where
  "generateTile env w imagePath outputPath level x y tileSize originalWidth originalHeight =
     (case tileRegion level x y tileSize originalWidth originalHeight of
        None \<Rightarrow> (Inr None, w)
      | Some r \<Rightarrow>
          if mkdir_fails env outputPath then (Inl IOFailure, w)
          else
            (let scale = levelScale originalWidth originalHeight tileSize level;
                 src = toSourceRegion r scale originalWidth originalHeight;
                 w' = w\<lparr>codec_log := codec_log w
                        @ [Render imagePath src (r_width r) (r_height r) outputPath]\<rparr>
             in if render_ok env imagePath src (r_width r) (r_height r)
                then (Inr (Some outputPath), fs_writeFile w' outputPath)
                else (Inl CodecFailure, w')))"

text \<open>
  The first block of \<^verbatim>\<open>generateTileOnDemand\<close> (lines 167 to 178): the path of the source
  image. \<^verbatim>\<open>imageId.tif\<close> is tried first; when \<^verbatim>\<open>fs.access\<close> rejects, the directory is
  listed and searched for the first name that starts with the image id. The listing is
  made in the \<^verbatim>\<open>catch\<close> block, outside any \<^verbatim>\<open>try\<close>: when \<^verbatim>\<open>fs.readdir\<close> rejects, its
  error leaves the function.
\<close>

definition resolveImagePath :: "env \<Rightarrow> world \<Rightarrow> string \<Rightarrow> error + path" where
  "resolveImagePath env w imageId =
     (let imagePath = OriginalPath (imageId @ ''.tif'')
      in if fs_access w imagePath then Inr imagePath
         else if readdir_originals_fails env then Inl IOFailure
         else
           (let files = originals w
            in case find (\<lambda>f. prefix imageId f) files of
                 None \<Rightarrow> Inl (NotFound imageId)
               | Some imageFile \<Rightarrow> Inr (OriginalPath imageFile)))"

text \<open>
  \<^verbatim>\<open>generateTileOnDemand(imageId, level, x, y)\<close>. The value \<^verbatim>\<open>generateTile\<close> returns is
  not read: after it, the function returns \<^verbatim>\<open>tilePath\<close>.
\<close>

definition generateTileOnDemand ::
    "env \<Rightarrow> world \<Rightarrow> string \<Rightarrow> int \<Rightarrow> int \<Rightarrow> int \<Rightarrow> (error + path) \<times> world" where
  "generateTileOnDemand env w imageId level x y =
     (case resolveImagePath env w imageId of
        Inl e \<Rightarrow> (Inl e, w)
      | Inr imagePath \<Rightarrow>
          (case getCachedMetadata env w imageId imagePath of
             (Inl e, w1) \<Rightarrow> (Inl e, w1)
           | (Inr metadata, w1) \<Rightarrow>
               (let tileSize = 256;
                    tilePath = TilePath imageId level x y
                in if fs_access w1 tilePath then (Inr tilePath, w1)
                   else
                     (case generateTile env w1 imagePath tilePath level x y tileSize
                             (md_width metadata) (md_height metadata) of
                        (Inl e, w2) \<Rightarrow> (Inl e, w2)
                      | (Inr generated, w2) \<Rightarrow> (Inr tilePath, w2)))))"

text \<open>
  The cleanup loop of \<^verbatim>\<open>processUpload\<close> over the names \<^verbatim>\<open>readdir\<close> returned. The first
  rejection of \<^verbatim>\<open>stat\<close> or \<^verbatim>\<open>unlink\<close> leaves the loop; what was deleted stays deleted.
\<close>

fun cleanupLoop :: "env \<Rightarrow> string list \<Rightarrow> world \<Rightarrow> error option \<times> world" where
  "cleanupLoop env [] w = (None, w)"
| "cleanupLoop env (file # tempFiles) w =
     (case fs_stat env w file of
        Inl e \<Rightarrow> (Some e, w)
      | Inr stat \<Rightarrow>
          if stat = RegularFile then
            (case fs_unlink env w file of
               Inl e \<Rightarrow> (Some e, w)
             | Inr w' \<Rightarrow> cleanupLoop env tempFiles w')
          else cleanupLoop env tempFiles w)"

text \<open>
  The \<^verbatim>\<open>try\<close> block around the cleanup: an error of \<^verbatim>\<open>readdir\<close> or of the loop is logged
  to the console and dropped.
\<close>

definition cleanupTemp :: "env \<Rightarrow> world \<Rightarrow> world" where
  "cleanupTemp env w =
     (if readdir_fails env then w
      else (let tempFiles = map fst (temp w) in snd (cleanupLoop env tempFiles w)))"

text \<open>The object \<^verbatim>\<open>processUpload\<close> returns, without the time stamp \<^verbatim>\<open>uploadedAt\<close>.\<close>

record descriptor =
  d_id :: string
  d_width :: int
  d_height :: int
  d_tileSize :: int
  d_format :: string
  d_levels :: int
  d_originalFormat :: string

text \<open>
  \<^verbatim>\<open>processUpload(imageId, originalPath)\<close>, for an upload \<^verbatim>\<open>temp/name\<close> as the server's
  upload handler stores it: probe, move to \<^verbatim>\<open>originalDir/imageId.ext\<close>, clean the temp
  directory, describe the image.
\<close>

definition processUpload ::
    "env \<Rightarrow> world \<Rightarrow> string \<Rightarrow> string \<Rightarrow> (error + descriptor) \<times> world" where
  "processUpload env w imageId name =
     (case getImageMetadata env w (TempPath name) of
        (Inl e, w1) \<Rightarrow> (Inl e, w1)
      | (Inr metadata, w1) \<Rightarrow>
          (let ext = extname name
           in case fs_rename env w1 name (imageId @ ext) of
                Inl e \<Rightarrow> (Inl e, w1)
              | Inr w2 \<Rightarrow>
                  (Inr \<lparr>d_id = imageId,
                        d_width = md_width metadata,
                        d_height = md_height metadata,
                        d_tileSize = 256,
                        d_format = ''jpeg'',
                        d_levels = calculateLevels (md_width metadata) (md_height metadata) 256,
                        d_originalFormat = md_format metadata\<rparr>,
                   cleanupTemp env w2)))"

section \<open>The geometry in the words of the specification\<close>

text \<open>
  Section 4.1 of the specification, over the reals:
  \<open>maxLevel = ceil(log2(max(width, height) / tileSize))\<close>,
  \<open>scale(level) = 2^(maxLevel - level)\<close> and \<open>scaledDim(dim, level) = ceil(dim / scale(level))\<close>.
  The definitions from the source are compared with these.
\<close>

definition spec_maxLevel :: "int \<Rightarrow> int \<Rightarrow> int \<Rightarrow> int" where
  "spec_maxLevel width height tileSize =
     \<lceil>log 2 (real_of_int (max width height) / real_of_int tileSize)\<rceil>"

definition spec_scale :: "int \<Rightarrow> int \<Rightarrow> real" where
  "spec_scale maxLevel level = 2 powr real_of_int (maxLevel - level)"

definition spec_scaledDim :: "int \<Rightarrow> int \<Rightarrow> int \<Rightarrow> int" where
  "spec_scaledDim d maxLevel level = \<lceil>real_of_int d / spec_scale maxLevel level\<rceil>"

section \<open>Concrete states\<close>

text \<open>
  An outside world in which nothing fails and every probed file is a TIFF of
  10000 x 8000 pixels, and variants of it: a codec that rejects every file, a file system
  that refuses to rename, one that refuses to unlink, one in which the directory of
  originals cannot be listed.
\<close>

definition demo_metadata :: metadata where
  "demo_metadata = \<lparr>md_width = 10000, md_height = 8000, md_format = ''tiff'', md_pages = 1\<rparr>"

definition demo_env :: env where
  "demo_env =
     \<lparr>probe = (\<lambda>p. Some demo_metadata),
      render_ok = (\<lambda>p r outW outH. True),
      mkdir_fails = (\<lambda>p. False),
      rename_fails = (\<lambda>p q. False),
      readdir_originals_fails = False,
      readdir_fails = False,
      stat_fails = (\<lambda>p. False),
      unlink_fails = (\<lambda>p. False)\<rparr>"

definition corrupt_env :: env where
  "corrupt_env = demo_env\<lparr>probe := (\<lambda>p. None)\<rparr>"

definition norename_env :: env where
  "norename_env = demo_env\<lparr>rename_fails := (\<lambda>p q. True)\<rparr>"

definition nounlink_env :: env where
  "nounlink_env = demo_env\<lparr>unlink_fails := (\<lambda>p. True)\<rparr>"

definition noreaddir_env :: env where
  "noreaddir_env = demo_env\<lparr>readdir_originals_fails := True\<rparr>"

text \<open>
  The image \<^verbatim>\<open>img.tif\<close> is stored. In \<open>warm_world\<close> its metadata is cached and no tile
  exists. In \<open>restart_world\<close> the tile (6, 0, 0) is on disk and the in-memory cache is empty,
  as after a restart of the server. In \<open>orphan_world\<close> the tile is on disk and the source
  image is gone.
\<close>

definition warm_world :: world where
  "warm_world =
     \<lparr>originals = [''img.tif''], tiles = {}, temp = [],
      metadataCache = [''img'' \<mapsto> demo_metadata], codec_log = []\<rparr>"

definition restart_world :: world where
  "restart_world =
     \<lparr>originals = [''img.tif''], tiles = {TilePath ''img'' 6 0 0}, temp = [],
      metadataCache = Map.empty, codec_log = []\<rparr>"

definition orphan_world :: world where
  "orphan_world =
     \<lparr>originals = [], tiles = {TilePath ''img'' 6 0 0}, temp = [],
      metadataCache = Map.empty, codec_log = []\<rparr>"


definition upload_world :: world where
  "upload_world =
     \<lparr>originals = [], tiles = {},
      temp = [(''u1.tif'', RegularFile), (''u2.tif'', RegularFile), (''sub'', Directory)],
      metadataCache = Map.empty, codec_log = []\<rparr>"

section \<open>Facts about the logarithm and the scale\<close>

lemma log2_up_sound:
  "0 < t \<Longrightarrow> k \<le> log2_up m t k \<and> m \<le> t * 2 ^ log2_up m t k \<and>
     (k < log2_up m t k \<longrightarrow> t * 2 ^ (log2_up m t k - 1) < m)"
proof (induction m t k rule: log2_up.induct)
  case (1 m t k)
  show ?case
  proof (cases "m \<le> t * 2 ^ k")
    case True
    then have "log2_up m t k = k"
      by (subst log2_up.simps) simp
    with True "1.prems" show ?thesis by simp
  next
    case False
    with "1.prems" have step: "log2_up m t k = log2_up m t (Suc k)"
      by (subst log2_up.simps) simp
    from False "1.prems" have IH: "Suc k \<le> log2_up m t (Suc k) \<and> m \<le> t * 2 ^ log2_up m t (Suc k) \<and>
        (Suc k < log2_up m t (Suc k) \<longrightarrow> t * 2 ^ (log2_up m t (Suc k) - 1) < m)"
      by (intro "1.IH") simp_all
    show ?thesis
    proof (cases "Suc k < log2_up m t (Suc k)")
      case True
      with IH show ?thesis unfolding step by simp
    next
      case False
      with IH have "log2_up m t (Suc k) = Suc k" by simp
      with IH \<open>\<not> m \<le> t * 2 ^ k\<close> show ?thesis unfolding step by simp
    qed
  qed
qed

lemma log2_down_sound:
  "0 < m \<Longrightarrow> m * 2 ^ j \<le> t \<Longrightarrow>
     j \<le> log2_down m t j \<and> m * 2 ^ log2_down m t j \<le> t \<and> t < m * 2 ^ Suc (log2_down m t j)"
proof (induction m t j rule: log2_down.induct)
  case (1 m t j)
  show ?case
  proof (cases "t < m * 2 ^ Suc j")
    case True
    then have "log2_down m t j = j"
      by (subst log2_down.simps) simp
    with True "1.prems" show ?thesis by simp
  next
    case False
    with "1.prems" have step: "log2_down m t j = log2_down m t (Suc j)"
      by (subst log2_down.simps) simp
    from False "1.prems" have "Suc j \<le> log2_down m t (Suc j) \<and> m * 2 ^ log2_down m t (Suc j) \<le> t \<and>
        t < m * 2 ^ Suc (log2_down m t (Suc j))"
      by (intro "1.IH") simp_all
    then show ?thesis unfolding step by simp
  qed
qed

lemma ceiling_log2_eqI:
  fixes x :: real
  assumes "0 < x" and "2 powr (of_int z - 1) < x" and "x \<le> 2 powr of_int z"
  shows "\<lceil>log 2 x\<rceil> = z"
  using assms by (simp add: ceiling_eq_iff less_log_iff log_le_iff)

lemma quot_le_pow2: "0 < t \<Longrightarrow> m \<le> t * 2 ^ r \<Longrightarrow> real_of_int m / real_of_int t \<le> 2 ^ r"
proof -
  assume t: "0 < t" and "m \<le> t * 2 ^ r"
  then have "real_of_int m \<le> real_of_int (t * 2 ^ r)"
    by (simp only: of_int_le_iff)
  then have "real_of_int m \<le> 2 ^ r * real_of_int t"
    by (simp add: mult.commute)
  with t show ?thesis
    by (simp add: pos_divide_le_eq)
qed

lemma pow2_less_quot: "0 < t \<Longrightarrow> t * 2 ^ r < m \<Longrightarrow> 2 ^ r < real_of_int m / real_of_int t"
proof -
  assume t: "0 < t" and "t * 2 ^ r < m"
  then have "real_of_int (t * 2 ^ r) < real_of_int m"
    by (simp only: of_int_less_iff)
  then have "2 ^ r * real_of_int t < real_of_int m"
    by (simp add: mult.commute)
  with t show ?thesis
    by (simp add: pos_less_divide_eq)
qed

lemma quot_le_inv_pow2: "0 < t \<Longrightarrow> m * 2 ^ r \<le> t \<Longrightarrow> real_of_int m / real_of_int t \<le> 1 / 2 ^ r"
proof -
  assume t: "0 < t" and "m * 2 ^ r \<le> t"
  then have "real_of_int (m * 2 ^ r) \<le> real_of_int t"
    by (simp only: of_int_le_iff)
  then have "real_of_int m * 2 ^ r \<le> real_of_int t"
    by simp
  with t show ?thesis
    by (simp add: pos_divide_le_eq pos_le_divide_eq)
qed

lemma inv_pow2_less_quot: "0 < t \<Longrightarrow> t < m * 2 ^ r \<Longrightarrow> 1 / 2 ^ r < real_of_int m / real_of_int t"
proof -
  assume t: "0 < t" and "t < m * 2 ^ r"
  then have "real_of_int t < real_of_int (m * 2 ^ r)"
    by (simp only: of_int_less_iff)
  then have "real_of_int t < real_of_int m * 2 ^ r"
    by simp
  with t show ?thesis
    by (simp add: pos_divide_less_eq pos_less_divide_eq)
qed

lemma powr_neg_nat: "(2::real) powr (- real r) = 1 / 2 ^ r"
  by (simp add: powr_minus powr_realpow inverse_eq_divide)

lemma ceil_log2_correct:
  assumes m: "0 < m" and t: "0 < t"
  shows "ceil_log2 m t = \<lceil>log 2 (real_of_int m / real_of_int t)\<rceil>"
proof (cases "t < m")
  case True
  define r where "r = log2_up m t 0"
  from log2_up_sound [OF t, of 0 m]
  have le: "m \<le> t * 2 ^ r" and gt: "0 < r \<longrightarrow> t * 2 ^ (r - 1) < m"
    by (simp_all add: r_def)
  from True le have "0 < r"
    by (cases r) simp_all
  with gt have gt': "t * 2 ^ (r - 1) < m" by simp
  have x: "0 < real_of_int m / real_of_int t"
    using m t by simp
  have ub: "real_of_int m / real_of_int t \<le> 2 powr of_int (int r)"
    using quot_le_pow2 [OF t le] by (simp add: powr_realpow)
  have "of_int (int r) - 1 = real (r - 1)"
    using \<open>0 < r\<close> by simp
  then have "2 powr (of_int (int r) - 1) = (2::real) ^ (r - 1)"
    by (simp only: powr_realpow zero_less_numeral)
  with pow2_less_quot [OF t gt']
  have lb: "2 powr (of_int (int r) - 1) < real_of_int m / real_of_int t"
    by simp
  from ceiling_log2_eqI [OF x lb ub] True show ?thesis
    by (simp add: ceil_log2_def r_def)
next
  case False
  define r where "r = log2_down m t 0"
  from False have "m * 2 ^ 0 \<le> t" by simp
  from log2_down_sound [OF m this]
  have le: "m * 2 ^ r \<le> t" and gt: "t < m * 2 ^ Suc r"
    by (simp_all add: r_def)
  have x: "0 < real_of_int m / real_of_int t"
    using m t by simp
  have "of_int (- int r) = - real r"
    by simp
  then have p: "2 powr of_int (- int r) = 1 / (2::real) ^ r"
    by (simp only: powr_neg_nat)
  have "of_int (- int r) - 1 = - real (Suc r)"
    by simp
  then have q: "2 powr (of_int (- int r) - 1) = 1 / (2::real) ^ Suc r"
    by (simp only: powr_neg_nat)
  have ub: "real_of_int m / real_of_int t \<le> 2 powr of_int (- int r)"
    unfolding p by (rule quot_le_inv_pow2 [OF t le])
  have lb: "2 powr (of_int (- int r) - 1) < real_of_int m / real_of_int t"
    unfolding q by (rule inv_pow2_less_quot [OF t gt])
  from ceiling_log2_eqI [OF x lb ub] False show ?thesis
    by (simp add: ceil_log2_def r_def)
qed

lemma calculateLevels_spec:
  assumes "0 < width" and "0 < height" and "0 < tileSize"
  shows "calculateLevels width height tileSize = spec_maxLevel width height tileSize + 1"
proof -
  from assms have "0 < max width height"
    by simp
  from ceil_log2_correct [OF this \<open>0 < tileSize\<close>] show ?thesis
    by (simp add: calculateLevels_def spec_maxLevel_def Let_def)
qed

lemma pow2_pos: "0 < pow2 e"
  by (simp add: pow2_def)

lemma pow2_zero: "pow2 0 = 1"
  by (simp add: pow2_def)

lemma of_rat_pow2: "(of_rat (pow2 e) :: real) = 2 powr real_of_int e"
proof (cases "0 \<le> e")
  case True
  then have "real_of_int e = real (nat e)"
    by simp
  then have "(2::real) powr real_of_int e = 2 ^ nat e"
    by (simp only: powr_realpow zero_less_numeral)
  with True show ?thesis
    by (simp add: pow2_def of_rat_power)
next
  case False
  then have "real_of_int e = - real (nat (- e))"
    by simp
  then have "(2::real) powr real_of_int e = 1 / 2 ^ nat (- e)"
    by (simp only: powr_neg_nat)
  with False show ?thesis
    by (simp add: pow2_def of_rat_divide of_rat_power)
qed

lemma levelScale_spec:
  assumes "0 < width" and "0 < height" and "0 < tileSize"
  shows "(of_rat (levelScale width height tileSize level) :: real)
           = spec_scale (spec_maxLevel width height tileSize) level"
  using calculateLevels_spec [OF assms]
  by (simp add: levelScale_def Let_def of_rat_pow2 spec_scale_def)

lemma levelScale_pos: "0 < levelScale width height tileSize level"
  by (simp add: levelScale_def Let_def pow2_pos)

lemma levelScale_finest:
  "levelScale width height tileSize (calculateLevels width height tileSize - 1) = 1"
  by (simp add: levelScale_def Let_def pow2_zero)

lemma scaledDim_one: "scaledDim d 1 = d"
  by (simp add: scaledDim_def)

lemma ceiling_of_rat_real: "\<lceil>(of_rat q :: real)\<rceil> = \<lceil>q\<rceil>"
proof (rule ceiling_unique)
  have "of_int \<lceil>q\<rceil> - 1 < q"
    by linarith
  then have "(of_rat (of_int \<lceil>q\<rceil> - 1) :: real) < of_rat q"
    by (simp only: of_rat_less)
  then show "real_of_int \<lceil>q\<rceil> - 1 < of_rat q"
    by (simp add: of_rat_diff)
next
  have "q \<le> of_int \<lceil>q\<rceil>"
    by linarith
  then have "(of_rat q :: real) \<le> of_rat (of_int \<lceil>q\<rceil>)"
    by (simp only: of_rat_less_eq)
  then show "(of_rat q :: real) \<le> real_of_int \<lceil>q\<rceil>"
    by simp
qed

lemma scaledDim_spec:
  assumes "0 < width" and "0 < height" and "0 < tileSize"
  shows "scaledDim d (levelScale width height tileSize level)
           = spec_scaledDim d (spec_maxLevel width height tileSize) level"
proof -
  have "\<lceil>(of_rat (of_int d / levelScale width height tileSize level) :: real)\<rceil>
          = \<lceil>of_int d / levelScale width height tileSize level\<rceil>"
    by (rule ceiling_of_rat_real)
  then show ?thesis
    by (simp add: scaledDim_def spec_scaledDim_def of_rat_divide levelScale_spec [OF assms])
qed

lemma dims_in_rangeD:
  assumes "dims_in_range width height tileSize"
  shows "0 < width" and "0 < height" and "0 < tileSize"
    and "max width height < 2 ^ 31" and "tileSize < 2 ^ 31"
  using assms by (simp_all add: dims_in_range_def)

text \<open>
  On the domain the level count lies between -29 and 32, so the exponent handed to
  \<^verbatim>\<open>Math.pow\<close> for a level between -900 and 900 lies between -930 and 931, inside the
  range \<open>-1074 \<dots> 1023\<close> where the power of two is an exact double.
\<close>

lemma calculateLevels_bounds:
  assumes "dims_in_range width height tileSize"
  shows "- 29 \<le> calculateLevels width height tileSize"
    and "calculateLevels width height tileSize \<le> 32"
proof -
  let ?m = "max width height"
  note d = dims_in_rangeD [OF assms]
  from d have m: "0 < ?m"
    by simp
  have "- 30 \<le> ceil_log2 ?m tileSize \<and> ceil_log2 ?m tileSize \<le> 31"
  proof (cases "tileSize < ?m")
    case True
    define r where "r = log2_up ?m tileSize 0"
    from log2_up_sound [OF d(3), of 0 ?m]
    have gt: "0 < r \<longrightarrow> tileSize * 2 ^ (r - 1) < ?m"
      by (simp add: r_def)
    have "r \<le> 31"
    proof (rule ccontr)
      assume "\<not> r \<le> 31"
      then have r: "31 \<le> r - 1" "0 < r"
        by simp_all
      then have "(2::int) ^ 31 \<le> 2 ^ (r - 1)"
        by (intro power_increasing) simp_all
      also have "\<dots> \<le> tileSize * 2 ^ (r - 1)"
        using d(3) by (simp add: mult_le_cancel_right1)
      also from gt r have "\<dots> < ?m"
        by simp
      finally show False
        using d(4) by linarith
    qed
    with True show ?thesis
      by (simp add: ceil_log2_def r_def)
  next
    case False
    define r where "r = log2_down ?m tileSize 0"
    from False have "?m \<le> tileSize"
      by (simp only: not_less)
    then have "?m * 2 ^ 0 \<le> tileSize"
      by (simp only: power_0 mult_1_right)
    from log2_down_sound [OF m this]
    have le: "?m * 2 ^ r \<le> tileSize"
      by (simp add: r_def)
    have "r \<le> 30"
    proof (rule ccontr)
      assume "\<not> r \<le> 30"
      then have "31 \<le> r"
        by simp
      then have "(2::int) ^ 31 \<le> 2 ^ r"
        by (intro power_increasing) simp_all
      also have "\<dots> \<le> ?m * 2 ^ r"
        using m by (simp add: mult_le_cancel_right1)
      also note le
      finally show False
        using d(5) by linarith
    qed
    with False show ?thesis
      by (simp add: ceil_log2_def r_def)
  qed
  then show "- 29 \<le> calculateLevels width height tileSize"
    and "calculateLevels width height tileSize \<le> 32"
    by (simp_all add: calculateLevels_def Let_def)
qed

lemma exponent_in_double_range:
  assumes "dims_in_range width height tileSize" and "level_in_range level"
  shows "- 1074 \<le> calculateLevels width height tileSize - level - 1"
    and "calculateLevels width height tileSize - level - 1 \<le> 1023"
  using calculateLevels_bounds [OF assms(1)] assms(2)
  by (simp_all add: level_in_range_def)

section \<open>Level count and scale\<close>

text \<open>
  Claim C1. For an image whose dimensions and tile size are positive and below \<open>2^31\<close>,
  the level count \<open>calculateLevels\<close> is \<open>maxLevel + 1\<close> with
  \<open>maxLevel = ceil(log2(max(width, height) / tileSize))\<close>, and the scale of every level
  between -900 and 900 is \<open>2^(maxLevel - level)\<close>. For the image 10000 x 8000 with tiles
  of 256 pixels, \<open>maxLevel = 6\<close>, the levels are 0 to 6 (seven levels), the scale of level 6
  is 1 and the scale of level 0 is 64.
\<close>

theorem level_count_and_scale:
  assumes "dims_in_range width height tileSize" and "level_in_range level"
  shows "calculateLevels width height tileSize = spec_maxLevel width height tileSize + 1
       \<and> (of_rat (levelScale width height tileSize level) :: real)
           = 2 powr real_of_int (spec_maxLevel width height tileSize - level)
       \<and> spec_maxLevel 10000 8000 256 = 6
       \<and> calculateLevels 10000 8000 256 = 7
       \<and> levelScale 10000 8000 256 6 = 1
       \<and> levelScale 10000 8000 256 0 = 64"
proof -
  note pos = dims_in_rangeD(1-3) [OF assms(1)]
  have levels: "calculateLevels 10000 8000 256 = 7"
    by code_simp
  have "calculateLevels 10000 8000 256 = spec_maxLevel 10000 8000 256 + 1"
    by (rule calculateLevels_spec) simp_all
  with levels have maxLevel: "spec_maxLevel 10000 8000 256 = 6"
    by simp
  have fine: "levelScale 10000 8000 256 6 = 1"
    by code_simp
  have coarse: "levelScale 10000 8000 256 0 = 64"
    by code_simp
  have "(of_rat (levelScale width height tileSize level) :: real)
          = 2 powr real_of_int (spec_maxLevel width height tileSize - level)"
    using levelScale_spec [OF pos] by (simp only: spec_scale_def)
  with calculateLevels_spec [OF pos] levels maxLevel fine coarse show ?thesis
    by (simp only: simp_thms)
qed

theorem level_count_and_scale_witness:
  "dims_in_range 1000 700 256 \<and> level_in_range 0
     \<and> calculateLevels 1000 700 256 = 3
     \<and> spec_maxLevel 1000 700 256 = 2
     \<and> (of_rat (levelScale 1000 700 256 0) :: real) = 2 powr real_of_int (2 - 0)
     \<and> levelScale 1000 700 256 0 = 4"
proof -
  have dims: "dims_in_range 1000 700 256"
    by (simp add: dims_in_range_def)
  have level: "level_in_range 0"
    by (simp add: level_in_range_def)
  have levels: "calculateLevels 1000 700 256 = 3"
    by code_simp
  have scale: "levelScale 1000 700 256 0 = 4"
    by code_simp
  from level_count_and_scale [OF dims level]
  have "calculateLevels 1000 700 256 = spec_maxLevel 1000 700 256 + 1"
    and "(of_rat (levelScale 1000 700 256 0) :: real)
           = 2 powr real_of_int (spec_maxLevel 1000 700 256 - 0)"
    by simp_all
  with levels scale dims level show ?thesis
    by simp
qed

section \<open>The finest level\<close>

text \<open>
  Claim C4. For an image whose dimensions and tile size are positive and below \<open>2^31\<close>,
  at the finest level \<open>maxLevel = calculateLevels - 1\<close>, which is the specification's
  \<open>ceil(log2(max(width, height) / tileSize))\<close>, the scale is 1 and the scaled width and
  height are the original width and height: nothing is lost to rounding.
\<close>

theorem finest_level_round_trip:
  assumes "dims_in_range width height tileSize"
  shows "(let maxLevel = calculateLevels width height tileSize - 1;
              scale = levelScale width height tileSize maxLevel
          in maxLevel = spec_maxLevel width height tileSize
           \<and> level_in_range maxLevel
           \<and> scale = 1
           \<and> scaledDim width scale = width
           \<and> scaledDim height scale = height
           \<and> spec_scaledDim width maxLevel maxLevel = width
           \<and> spec_scaledDim height maxLevel maxLevel = height)"
proof -
  note pos = dims_in_rangeD(1-3) [OF assms]
  define maxLevel where "maxLevel = calculateLevels width height tileSize - 1"
  have spec: "maxLevel = spec_maxLevel width height tileSize"
    using calculateLevels_spec [OF pos] by (simp add: maxLevel_def)
  have range: "level_in_range maxLevel"
    using calculateLevels_bounds [OF assms] by (simp add: maxLevel_def level_in_range_def)
  have one: "levelScale width height tileSize maxLevel = 1"
    unfolding maxLevel_def by (rule levelScale_finest)
  have "spec_scaledDim width maxLevel maxLevel = width"
    and "spec_scaledDim height maxLevel maxLevel = height"
    by (simp_all add: spec_scaledDim_def spec_scale_def)
  with spec range one show ?thesis
    unfolding Let_def maxLevel_def [symmetric] by (simp add: scaledDim_one)
qed

theorem finest_level_round_trip_witness:
  "dims_in_range 10000 8000 256
     \<and> calculateLevels 10000 8000 256 - 1 = 6
     \<and> spec_maxLevel 10000 8000 256 = 6
     \<and> levelScale 10000 8000 256 6 = 1
     \<and> scaledDim 10000 (levelScale 10000 8000 256 6) = 10000
     \<and> scaledDim 8000 (levelScale 10000 8000 256 6) = 8000"
proof -
  have dims: "dims_in_range 10000 8000 256"
    by (simp add: dims_in_range_def)
  have levels: "calculateLevels 10000 8000 256 = 7"
    by code_simp
  from finest_level_round_trip [OF dims] levels dims show ?thesis
    by (simp add: Let_def scaledDim_one)
qed

section \<open>Tile regions\<close>

lemma tileRegion_eq:
  "tileRegion level x y tileSize originalWidth originalHeight =
     (let scale = levelScale originalWidth originalHeight tileSize level;
          scaledWidth = scaledDim originalWidth scale;
          scaledHeight = scaledDim originalHeight scale
      in if x * tileSize < scaledWidth \<and> y * tileSize < scaledHeight
         then Some \<lparr>r_left = x * tileSize, r_top = y * tileSize,
                    r_width = min tileSize (scaledWidth - x * tileSize),
                    r_height = min tileSize (scaledHeight - y * tileSize)\<rparr>
         else None)"
  by (simp add: tileRegion_def Let_def not_less)

lemma tileRegion_SomeD:
  assumes "tileRegion level x y tileSize originalWidth originalHeight = Some r"
  shows "r_left r = x * tileSize"
    and "r_top r = y * tileSize"
    and "r_left r < scaledDim originalWidth (levelScale originalWidth originalHeight tileSize level)"
    and "r_top r < scaledDim originalHeight (levelScale originalWidth originalHeight tileSize level)"
    and "r_width r = min tileSize
           (scaledDim originalWidth (levelScale originalWidth originalHeight tileSize level)
              - x * tileSize)"
    and "r_height r = min tileSize
           (scaledDim originalHeight (levelScale originalWidth originalHeight tileSize level)
              - y * tileSize)"
  using assms by (auto simp: tileRegion_eq Let_def split: if_splits)

text \<open>
  Claim C5. On the domain (dimensions and tile size positive and below \<open>2^31\<close>, level
  between -900 and 900, tile indices from 0 below \<open>2^22\<close>), with the scaled width and
  height of the specification, \<open>ceil(dim / 2^(maxLevel - level))\<close>, the tile region of
  \<open>(level, x, y)\<close> is \<open>{left = x * tileSize, top = y * tileSize,
  w = min(tileSize, scaledWidth - left), h = min(tileSize, scaledHeight - top)}\<close> when
  \<open>left < scaledWidth\<close> and \<open>top < scaledHeight\<close>, and "no region" otherwise. The function
  is total there: it has these two outcomes and no other.
\<close>

theorem tileRegion_two_outcomes:
  assumes "dims_in_range originalWidth originalHeight tileSize"
    and "level_in_range level" and "index_in_range x" and "index_in_range y"
  shows "(let maxLevel = spec_maxLevel originalWidth originalHeight tileSize;
              scaledWidth = spec_scaledDim originalWidth maxLevel level;
              scaledHeight = spec_scaledDim originalHeight maxLevel level;
              left = x * tileSize;
              top' = y * tileSize
          in tileRegion level x y tileSize originalWidth originalHeight =
               (if left < scaledWidth \<and> top' < scaledHeight
                then Some \<lparr>r_left = left, r_top = top',
                           r_width = min tileSize (scaledWidth - left),
                           r_height = min tileSize (scaledHeight - top')\<rparr>
                else None))"
  by (simp only: tileRegion_eq Let_def scaledDim_spec [OF dims_in_rangeD(1-3) [OF assms(1)]])

theorem tileRegion_two_outcomes_witness:
  "dims_in_range 10000 8000 256 \<and> level_in_range 6 \<and> level_in_range 0
     \<and> index_in_range 39 \<and> index_in_range 31 \<and> index_in_range 1 \<and> index_in_range 0
     \<and> tileRegion 6 39 31 256 10000 8000
         = Some \<lparr>r_left = 9984, r_top = 7936, r_width = 16, r_height = 64\<rparr>
     \<and> 39 * 256 < spec_scaledDim 10000 (spec_maxLevel 10000 8000 256) 6
     \<and> 31 * 256 < spec_scaledDim 8000 (spec_maxLevel 10000 8000 256) 6
     \<and> tileRegion 0 1 0 256 10000 8000 = None
     \<and> \<not> (1 * 256 < spec_scaledDim 10000 (spec_maxLevel 10000 8000 256) 0
          \<and> 0 * 256 < spec_scaledDim 8000 (spec_maxLevel 10000 8000 256) 0)"
proof -
  have dims: "dims_in_range 10000 8000 256"
    by (simp add: dims_in_range_def)
  have levels: "level_in_range 6" "level_in_range 0"
    by (simp_all add: level_in_range_def)
  have indices: "index_in_range 39" "index_in_range 31" "index_in_range 1" "index_in_range 0"
    by (simp_all add: index_in_range_def)
  have inside: "tileRegion 6 39 31 256 10000 8000
      = Some \<lparr>r_left = 9984, r_top = 7936, r_width = 16, r_height = 64\<rparr>"
    by code_simp
  have outside: "tileRegion 0 1 0 256 10000 8000 = None"
    by code_simp
  from tileRegion_two_outcomes [OF dims levels(1) indices(1) indices(2)] inside
  have "39 * 256 < spec_scaledDim 10000 (spec_maxLevel 10000 8000 256) 6
      \<and> 31 * 256 < spec_scaledDim 8000 (spec_maxLevel 10000 8000 256) 6"
    by (simp add: Let_def split: if_splits)
  moreover from tileRegion_two_outcomes [OF dims levels(2) indices(3) indices(4)] outside
  have "\<not> (1 * 256 < spec_scaledDim 10000 (spec_maxLevel 10000 8000 256) 0
          \<and> 0 * 256 < spec_scaledDim 8000 (spec_maxLevel 10000 8000 256) 0)"
    by (simp add: Let_def split: if_splits)
  ultimately show ?thesis
    using inside outside dims levels indices by simp
qed

section \<open>The region read from the source image\<close>

text \<open>One axis of \<open>toSourceRegion\<close>: offset \<open>l\<close> and extent \<open>w\<close> at a level of scale \<open>s\<close>.\<close>

lemma source_axis_in_bounds:
  fixes s :: rat and l w D :: int
  assumes s: "0 < s" and l: "0 \<le> l" and lt: "l < \<lceil>of_int D / s\<rceil>" and w: "0 < w"
  shows "0 \<le> \<lfloor>of_int l * s\<rfloor>"
    and "\<lfloor>of_int l * s\<rfloor> < D"
    and "\<lfloor>of_int l * s\<rfloor> + min \<lceil>of_int w * s\<rceil> (D - \<lfloor>of_int l * s\<rfloor>) \<le> D"
    and "0 < min \<lceil>of_int w * s\<rceil> (D - \<lfloor>of_int l * s\<rfloor>)"
proof -
  from l s have "0 \<le> (of_int l :: rat) * s"
    by simp
  then show nonneg: "0 \<le> \<lfloor>of_int l * s\<rfloor>"
    by simp
  from lt have "(of_int l :: rat) < of_int D / s"
    by (simp only: less_ceiling_iff)
  with s have "(of_int l :: rat) * s < of_int D"
    by (simp add: pos_less_divide_eq)
  then show inside: "\<lfloor>of_int l * s\<rfloor> < D"
    by (simp only: floor_less_iff)
  show "\<lfloor>of_int l * s\<rfloor> + min \<lceil>of_int w * s\<rceil> (D - \<lfloor>of_int l * s\<rfloor>) \<le> D"
    by simp
  from w s have "0 < (of_int w :: rat) * s"
    by simp
  then have "0 < \<lceil>of_int w * s\<rceil>"
    by simp
  with inside show "0 < min \<lceil>of_int w * s\<rceil> (D - \<lfloor>of_int l * s\<rfloor>)"
    by simp
qed

lemma toSourceRegion_in_bounds:
  assumes x: "0 \<le> x" and y: "0 \<le> y" and ts: "0 < tileSize"
    and r: "tileRegion level x y tileSize originalWidth originalHeight = Some r"
    and src: "src = toSourceRegion r (levelScale originalWidth originalHeight tileSize level)
                      originalWidth originalHeight"
  shows "0 \<le> r_left src \<and> r_left src < originalWidth
       \<and> 0 \<le> r_top src \<and> r_top src < originalHeight
       \<and> 0 < r_width src \<and> r_left src + r_width src \<le> originalWidth
       \<and> 0 < r_height src \<and> r_top src + r_height src \<le> originalHeight"
proof -
  let ?s = "levelScale originalWidth originalHeight tileSize level"
  note d = tileRegion_SomeD [OF r]
  have s: "0 < ?s"
    by (rule levelScale_pos)
  from x ts have l: "0 \<le> r_left r"
    by (simp add: d(1))
  from y ts have t: "0 \<le> r_top r"
    by (simp add: d(2))
  from d(3) have lw: "r_left r < \<lceil>of_int originalWidth / ?s\<rceil>"
    by (simp only: scaledDim_def)
  from d(4) have th: "r_top r < \<lceil>of_int originalHeight / ?s\<rceil>"
    by (simp only: scaledDim_def)
  from d(3) d(1) ts have w: "0 < r_width r"
    by (simp add: d(5))
  from d(4) d(2) ts have h: "0 < r_height r"
    by (simp add: d(6))
  note horizontal = source_axis_in_bounds [OF s l lw w]
  note vertical = source_axis_in_bounds [OF s t th h]
  from horizontal vertical show ?thesis
    unfolding src toSourceRegion_def Let_def by simp
qed

text \<open>
  Claim C6. On the domain (dimensions and tile size positive and below \<open>2^31\<close>, level
  between -900 and 900, tile indices from 0 below \<open>2^22\<close>), every region that
  \<open>generateTile\<close> hands to the codec lies inside the source image: its left and top are at
  least 0 and less than the width and height of the image, it is not empty, and
  left + width and top + height do not pass the right and bottom edge.
\<close>

theorem extract_region_within_source:
  assumes "dims_in_range originalWidth originalHeight tileSize"
    and "level_in_range level" and "index_in_range x" and "index_in_range y"
    and "codec_log (snd (generateTile env w imagePath outputPath level x y tileSize
            originalWidth originalHeight)) = codec_log w @ calls"
    and "Render p src outW outH out \<in> set calls"
  shows "0 \<le> r_left src \<and> r_left src < originalWidth
       \<and> 0 \<le> r_top src \<and> r_top src < originalHeight
       \<and> 0 < r_width src \<and> r_left src + r_width src \<le> originalWidth
       \<and> 0 < r_height src \<and> r_top src + r_height src \<le> originalHeight"
proof (cases "tileRegion level x y tileSize originalWidth originalHeight")
  case None
  with assms(5) have "calls = []"
    by (simp add: generateTile_def)
  with assms(6) show ?thesis
    by simp
next
  case (Some r)
  let ?src = "toSourceRegion r (levelScale originalWidth originalHeight tileSize level)
                originalWidth originalHeight"
  from assms(3,4) have x: "0 \<le> x" and y: "0 \<le> y"
    by (simp_all add: index_in_range_def)
  note ts = dims_in_rangeD(3) [OF assms(1)]
  from Some assms(5) have "calls = [] \<or> calls = [Render imagePath ?src (r_width r) (r_height r) outputPath]"
    by (auto simp: generateTile_def Let_def fs_writeFile_def split: if_splits path.splits)
  with assms(6) have "src = ?src"
    by auto
  from toSourceRegion_in_bounds [OF x y ts Some this] show ?thesis .
qed

theorem extract_region_within_source_witness:
  "dims_in_range 10000 8000 256 \<and> level_in_range 0 \<and> index_in_range 0
   \<and> codec_log (snd (generateTile demo_env warm_world (OriginalPath ''img.tif'')
         (TilePath ''img'' 0 0 0) 0 0 0 256 10000 8000))
       = codec_log warm_world
         @ [Render (OriginalPath ''img.tif'')
              \<lparr>r_left = 0, r_top = 0, r_width = 10000, r_height = 8000\<rparr> 157 125
              (TilePath ''img'' 0 0 0)]
   \<and> r_left \<lparr>r_left = 0, r_top = 0, r_width = 10000, r_height = 8000\<rparr>
       + r_width \<lparr>r_left = 0, r_top = 0, r_width = 10000, r_height = 8000\<rparr> \<le> (10000::int)
   \<and> r_top \<lparr>r_left = 0, r_top = 0, r_width = 10000, r_height = 8000\<rparr>
       + r_height \<lparr>r_left = 0, r_top = 0, r_width = 10000, r_height = 8000\<rparr> \<le> (8000::int)"
proof -
  let ?src = "\<lparr>r_left = 0, r_top = 0, r_width = 10000, r_height = 8000\<rparr>"
  let ?call = "Render (OriginalPath ''img.tif'') ?src 157 125 (TilePath ''img'' 0 0 0)"
  have dims: "dims_in_range 10000 8000 256"
    by (simp add: dims_in_range_def)
  have level: "level_in_range 0"
    by (simp add: level_in_range_def)
  have index: "index_in_range 0"
    by (simp add: index_in_range_def)
  have region: "tileRegion 0 0 0 256 10000 8000
      = Some \<lparr>r_left = 0, r_top = 0, r_width = 157, r_height = 125\<rparr>"
    by code_simp
  have scale: "levelScale 10000 8000 256 0 = 64"
    by code_simp
  have source: "toSourceRegion \<lparr>r_left = 0, r_top = 0, r_width = 157, r_height = 125\<rparr> 64
      10000 8000 = ?src"
    by (simp add: toSourceRegion_def)
  have log: "codec_log (snd (generateTile demo_env warm_world (OriginalPath ''img.tif'')
         (TilePath ''img'' 0 0 0) 0 0 0 256 10000 8000)) = codec_log warm_world @ [?call]"
    by (simp add: generateTile_def region scale source demo_env_def fs_writeFile_def)
  have member: "?call \<in> set [?call]"
    by simp
  from extract_region_within_source [OF dims level index index log member]
  have "r_left ?src + r_width ?src \<le> 10000" and "r_top ?src + r_height ?src \<le> 8000"
    by blast+
  with log dims level index show ?thesis
    by simp
qed

section \<open>Resolving an image id\<close>

lemma resolveImagePath_exact:
  "imageId @ ''.tif'' \<in> set (originals w)
     \<Longrightarrow> resolveImagePath env w imageId = Inr (OriginalPath (imageId @ ''.tif''))"
  by (simp add: resolveImagePath_def fs_access_def)

lemma resolveImagePath_unreadable:
  "imageId @ ''.tif'' \<notin> set (originals w) \<Longrightarrow> readdir_originals_fails env
     \<Longrightarrow> resolveImagePath env w imageId = Inl IOFailure"
  by (simp add: resolveImagePath_def fs_access_def)

lemma resolveImagePath_scan:
  "imageId @ ''.tif'' \<notin> set (originals w) \<Longrightarrow> \<not> readdir_originals_fails env
     \<Longrightarrow> resolveImagePath env w imageId =
          (case find (prefix imageId) (originals w) of
             None \<Rightarrow> Inl (NotFound imageId)
           | Some imageFile \<Rightarrow> Inr (OriginalPath imageFile))"
  by (simp add: resolveImagePath_def fs_access_def)




section \<open>Upload\<close>

lemma processUpload_probe_fails:
  "probe env (TempPath name) = None
     \<Longrightarrow> processUpload env w imageId name
          = (Inl CodecFailure, w\<lparr>codec_log := codec_log w @ [Probe (TempPath name)]\<rparr>)"
  by (simp add: processUpload_def getImageMetadata_def)

lemma processUpload_rename_fails:
  "probe env (TempPath name) = Some md
     \<Longrightarrow> map_of (temp w) name = None
          \<or> rename_fails env (TempPath name) (OriginalPath (imageId @ extname name))
     \<Longrightarrow> processUpload env w imageId name
          = (Inl IOFailure, w\<lparr>codec_log := codec_log w @ [Probe (TempPath name)]\<rparr>)"
  by (auto simp: processUpload_def getImageMetadata_def fs_rename_def Let_def)

text \<open>
  Claim C8. When the probe of the uploaded file fails, \<open>processUpload\<close> fails before the
  move: the temp directory still holds the file, the directory of originals, the tiles
  and the metadata cache are as before, so nothing is registered. When the probe succeeds
  and the move fails, \<open>processUpload\<close> fails and again the temp directory, the originals,
  the tiles and the metadata cache are as before.
\<close>

theorem upload_failure_leaves_state:
  "(probe env (TempPath name) = None
      \<longrightarrow> (let (result, w') = processUpload env w imageId name
           in result = Inl CodecFailure
            \<and> temp w' = temp w \<and> originals w' = originals w
            \<and> tiles w' = tiles w \<and> metadataCache w' = metadataCache w))
   \<and> (probe env (TempPath name) \<noteq> None
        \<and> (map_of (temp w) name = None
            \<or> rename_fails env (TempPath name) (OriginalPath (imageId @ extname name)))
      \<longrightarrow> (let (result, w') = processUpload env w imageId name
           in result = Inl IOFailure
            \<and> temp w' = temp w \<and> originals w' = originals w
            \<and> tiles w' = tiles w \<and> metadataCache w' = metadataCache w))"
proof (intro conjI impI)
  assume "probe env (TempPath name) = None"
  from processUpload_probe_fails [OF this, of w imageId]
  show "let (result, w') = processUpload env w imageId name
        in result = Inl CodecFailure
         \<and> temp w' = temp w \<and> originals w' = originals w
         \<and> tiles w' = tiles w \<and> metadataCache w' = metadataCache w"
    by simp
next
  assume a: "probe env (TempPath name) \<noteq> None
        \<and> (map_of (temp w) name = None
            \<or> rename_fails env (TempPath name) (OriginalPath (imageId @ extname name)))"
  then obtain md where "probe env (TempPath name) = Some md"
    by auto
  from processUpload_rename_fails [OF this, of w imageId] a
  show "let (result, w') = processUpload env w imageId name
        in result = Inl IOFailure
         \<and> temp w' = temp w \<and> originals w' = originals w
         \<and> tiles w' = tiles w \<and> metadataCache w' = metadataCache w"
    by simp
qed

theorem upload_failure_leaves_state_witness:
  "probe corrupt_env (TempPath ''u1.tif'') = None
   \<and> fst (processUpload corrupt_env upload_world ''id1'' ''u1.tif'') = Inl CodecFailure
   \<and> temp (snd (processUpload corrupt_env upload_world ''id1'' ''u1.tif''))
       = [(''u1.tif'', RegularFile), (''u2.tif'', RegularFile), (''sub'', Directory)]
   \<and> originals (snd (processUpload corrupt_env upload_world ''id1'' ''u1.tif'')) = []
   \<and> probe norename_env (TempPath ''u1.tif'') \<noteq> None
   \<and> rename_fails norename_env (TempPath ''u1.tif'') (OriginalPath (''id1'' @ extname ''u1.tif''))
   \<and> fst (processUpload norename_env upload_world ''id1'' ''u1.tif'') = Inl IOFailure
   \<and> temp (snd (processUpload norename_env upload_world ''id1'' ''u1.tif''))
       = [(''u1.tif'', RegularFile), (''u2.tif'', RegularFile), (''sub'', Directory)]
   \<and> originals (snd (processUpload norename_env upload_world ''id1'' ''u1.tif'')) = []"
proof -
  have corrupt: "probe corrupt_env (TempPath ''u1.tif'') = None"
    by (simp add: corrupt_env_def demo_env_def)
  have norename: "probe norename_env (TempPath ''u1.tif'') \<noteq> None"
    "rename_fails norename_env (TempPath ''u1.tif'') (OriginalPath (''id1'' @ extname ''u1.tif''))"
    by (simp_all add: norename_env_def demo_env_def)
  have state: "temp upload_world
      = [(''u1.tif'', RegularFile), (''u2.tif'', RegularFile), (''sub'', Directory)]"
    "originals upload_world = []"
    by (simp_all add: upload_world_def)
  from upload_failure_leaves_state [of corrupt_env "''u1.tif''" upload_world "''id1''"] corrupt
  have first: "fst (processUpload corrupt_env upload_world ''id1'' ''u1.tif'') = Inl CodecFailure
      \<and> temp (snd (processUpload corrupt_env upload_world ''id1'' ''u1.tif'')) = temp upload_world
      \<and> originals (snd (processUpload corrupt_env upload_world ''id1'' ''u1.tif''))
          = originals upload_world"
    by (simp add: case_prod_beta)
  from upload_failure_leaves_state [of norename_env "''u1.tif''" upload_world "''id1''"] norename
  have second: "fst (processUpload norename_env upload_world ''id1'' ''u1.tif'') = Inl IOFailure
      \<and> temp (snd (processUpload norename_env upload_world ''id1'' ''u1.tif'')) = temp upload_world
      \<and> originals (snd (processUpload norename_env upload_world ''id1'' ''u1.tif''))
          = originals upload_world"
    by (simp add: case_prod_beta)
  from first second corrupt norename show ?thesis
    by (simp only: state simp_thms)
qed

section \<open>Cleaning the temp directory\<close>

lemma cleanupLoop_complete:
  assumes "distinct tempFiles"
    and "\<forall>f \<in> set tempFiles. map_of (temp w) f \<noteq> None
           \<and> \<not> stat_fails env (TempPath f) \<and> \<not> unlink_fails env (TempPath f)"
  shows "fst (cleanupLoop env tempFiles w) = None
       \<and> map_of (temp (snd (cleanupLoop env tempFiles w)))
           = (\<lambda>f. if f \<in> set tempFiles \<and> map_of (temp w) f = Some RegularFile then None
                   else map_of (temp w) f)"
  using assms
proof (induction tempFiles arbitrary: w)
  case Nil
  then show ?case
    by simp
next
  case (Cons tempFile tempFiles)
  from Cons.prems obtain k where k: "map_of (temp w) tempFile = Some k"
    by auto
  from Cons.prems have ok: "\<not> stat_fails env (TempPath tempFile)" "\<not> unlink_fails env (TempPath tempFile)"
    by simp_all
  from Cons.prems have d: "distinct tempFiles" and fresh: "tempFile \<notin> set tempFiles"
    by simp_all
  show ?case
  proof (cases "k = RegularFile")
    case True
    let ?w' = "w\<lparr>temp := AList.delete tempFile (temp w)\<rparr>"
    have step: "cleanupLoop env (tempFile # tempFiles) w = cleanupLoop env tempFiles ?w'"
      using k ok True by (simp add: fs_stat_def fs_unlink_def)
    have same: "\<forall>f \<in> set tempFiles. map_of (temp ?w') f = map_of (temp w) f"
      using fresh by (auto simp: delete_conv')
    with Cons.prems have "\<forall>f \<in> set tempFiles. map_of (temp ?w') f \<noteq> None
           \<and> \<not> stat_fails env (TempPath f) \<and> \<not> unlink_fails env (TempPath f)"
      by simp
    from Cons.IH [OF d this]
    have IH: "fst (cleanupLoop env tempFiles ?w') = None"
      "map_of (temp (snd (cleanupLoop env tempFiles ?w')))
         = (\<lambda>f. if f \<in> set tempFiles \<and> map_of (temp ?w') f = Some RegularFile then None
                 else map_of (temp ?w') f)"
      by simp_all
    have "(\<lambda>f. if f \<in> set tempFiles \<and> map_of (temp ?w') f = Some RegularFile then None
                else map_of (temp ?w') f)
        = (\<lambda>f. if f \<in> set (tempFile # tempFiles) \<and> map_of (temp w) f = Some RegularFile then None
                else map_of (temp w) f)"
      using k True fresh by (auto simp: delete_conv' fun_eq_iff)
    with IH show ?thesis
      unfolding step by simp
  next
    case False
    have step: "cleanupLoop env (tempFile # tempFiles) w = cleanupLoop env tempFiles w"
      using k ok False by (simp add: fs_stat_def)
    from Cons.prems have "\<forall>f \<in> set tempFiles. map_of (temp w) f \<noteq> None
           \<and> \<not> stat_fails env (TempPath f) \<and> \<not> unlink_fails env (TempPath f)"
      by simp
    from Cons.IH [OF d this]
    have IH: "fst (cleanupLoop env tempFiles w) = None"
      "map_of (temp (snd (cleanupLoop env tempFiles w)))
         = (\<lambda>f. if f \<in> set tempFiles \<and> map_of (temp w) f = Some RegularFile then None
                 else map_of (temp w) f)"
      by simp_all
    have "(\<lambda>f. if f \<in> set tempFiles \<and> map_of (temp w) f = Some RegularFile then None
                else map_of (temp w) f)
        = (\<lambda>f. if f \<in> set (tempFile # tempFiles) \<and> map_of (temp w) f = Some RegularFile then None
                else map_of (temp w) f)"
      using k False by (auto simp: fun_eq_iff)
    with IH show ?thesis
      unfolding step by simp
  qed
qed

lemma cleanupTemp_complete:
  assumes "distinct (map fst (temp w))"
    and "\<not> readdir_fails env"
    and "\<forall>f \<in> fst ` set (temp w). \<not> stat_fails env (TempPath f) \<and> \<not> unlink_fails env (TempPath f)"
  shows "map_of (temp (cleanupTemp env w)) f \<noteq> Some RegularFile"
proof -
  have "\<forall>f \<in> set (map fst (temp w)). map_of (temp w) f \<noteq> None
           \<and> \<not> stat_fails env (TempPath f) \<and> \<not> unlink_fails env (TempPath f)"
    using assms(3) by (auto simp: map_of_eq_None_iff)
  from cleanupLoop_complete [OF assms(1) this]
  have "map_of (temp (snd (cleanupLoop env (map fst (temp w)) w))) f
      = (if f \<in> set (map fst (temp w)) \<and> map_of (temp w) f = Some RegularFile then None
         else map_of (temp w) f)"
    by simp
  moreover have "map_of (temp w) f = Some RegularFile \<Longrightarrow> f \<in> set (map fst (temp w))"
    by (auto dest: map_of_SomeD intro: rev_image_eqI)
  ultimately show ?thesis
    using assms(2) by (auto simp: cleanupTemp_def Let_def)
qed

lemma processUpload_moved:
  assumes "probe env (TempPath name) = Some md"
    and "map_of (temp w) name \<noteq> None"
    and "\<not> rename_fails env (TempPath name) (OriginalPath (imageId @ extname name))"
  shows "processUpload env w imageId name =
     (Inr \<lparr>d_id = imageId, d_width = md_width md, d_height = md_height md, d_tileSize = 256,
           d_format = ''jpeg'', d_levels = calculateLevels (md_width md) (md_height md) 256,
           d_originalFormat = md_format md\<rparr>,
      cleanupTemp env
        (w\<lparr>codec_log := codec_log w @ [Probe (TempPath name)],
           temp := AList.delete name (temp w),
           originals := (if imageId @ extname name \<in> set (originals w) then originals w
                         else originals w @ [imageId @ extname name])\<rparr>))"
  using assms by (simp add: processUpload_def getImageMetadata_def fs_rename_def Let_def)

text \<open>
  Claim C10. Let the probe and the move of an upload succeed, in a temp directory whose
  entries have distinct names. Then \<open>processUpload\<close> succeeds whatever happens in the
  cleanup: a failure of \<^verbatim>\<open>readdir\<close>, \<^verbatim>\<open>stat\<close> or \<^verbatim>\<open>unlink\<close> does not fail the upload. And
  when no step of the cleanup fails, no regular file is left in the temp directory
  afterwards: the files of other pending uploads are deleted as well.
\<close>

theorem upload_cleans_whole_temp_directory:
  assumes "probe env (TempPath name) = Some md"
    and "map_of (temp w) name \<noteq> None"
    and "\<not> rename_fails env (TempPath name) (OriginalPath (imageId @ extname name))"
    and "distinct (map fst (temp w))"
  shows "(\<exists>d. fst (processUpload env w imageId name) = Inr d)
       \<and> (\<not> readdir_fails env
           \<and> (\<forall>f \<in> fst ` set (temp w).
                 \<not> stat_fails env (TempPath f) \<and> \<not> unlink_fails env (TempPath f))
          \<longrightarrow> (\<forall>f. map_of (temp (snd (processUpload env w imageId name))) f \<noteq> Some RegularFile))"
proof (intro conjI impI allI)
  show "\<exists>d. fst (processUpload env w imageId name) = Inr d"
    by (simp add: processUpload_moved [OF assms(1-3)])
next
  fix f
  assume quiet: "\<not> readdir_fails env
           \<and> (\<forall>f \<in> fst ` set (temp w).
                 \<not> stat_fails env (TempPath f) \<and> \<not> unlink_fails env (TempPath f))"
  let ?w2 = "w\<lparr>codec_log := codec_log w @ [Probe (TempPath name)],
           temp := AList.delete name (temp w),
           originals := (if imageId @ extname name \<in> set (originals w) then originals w
                         else originals w @ [imageId @ extname name])\<rparr>"
  have d: "distinct (map fst (temp ?w2))"
    using assms(4) by (simp add: distinct_delete)
  have sub: "fst ` set (temp ?w2) \<subseteq> fst ` set (temp w)"
    using dom_delete_subset [of name "temp w"] by simp
  with quiet have q: "\<forall>f \<in> fst ` set (temp ?w2).
      \<not> stat_fails env (TempPath f) \<and> \<not> unlink_fails env (TempPath f)"
    by blast
  from quiet have "\<not> readdir_fails env"
    by simp
  from cleanupTemp_complete [OF d this q, of f]
  show "map_of (temp (snd (processUpload env w imageId name))) f \<noteq> Some RegularFile"
    by (simp add: processUpload_moved [OF assms(1-3)])
qed

theorem upload_cleans_whole_temp_directory_witness:
  "probe demo_env (TempPath ''u1.tif'') = Some demo_metadata
   \<and> map_of (temp upload_world) ''u1.tif'' \<noteq> None
   \<and> \<not> rename_fails demo_env (TempPath ''u1.tif'') (OriginalPath (''id1'' @ extname ''u1.tif''))
   \<and> distinct (map fst (temp upload_world))
   \<and> \<not> readdir_fails demo_env
   \<and> fst ` set (temp upload_world) = {''u1.tif'', ''u2.tif'', ''sub''}
   \<and> \<not> stat_fails demo_env (TempPath ''u1.tif'') \<and> \<not> unlink_fails demo_env (TempPath ''u1.tif'')
   \<and> \<not> stat_fails demo_env (TempPath ''u2.tif'') \<and> \<not> unlink_fails demo_env (TempPath ''u2.tif'')
   \<and> \<not> stat_fails demo_env (TempPath ''sub'') \<and> \<not> unlink_fails demo_env (TempPath ''sub'')
   \<and> (\<exists>d. fst (processUpload demo_env upload_world ''id1'' ''u1.tif'') = Inr d)
   \<and> map_of (temp (snd (processUpload demo_env upload_world ''id1'' ''u1.tif''))) ''u2.tif''
       \<noteq> Some RegularFile
   \<and> map_of (temp upload_world) ''u2.tif'' = Some RegularFile"
proof -
  have p: "probe demo_env (TempPath ''u1.tif'') = Some demo_metadata"
    by (simp add: demo_env_def)
  have m: "map_of (temp upload_world) ''u1.tif'' \<noteq> None"
    by (simp add: upload_world_def)
  have r: "\<not> rename_fails demo_env (TempPath ''u1.tif'') (OriginalPath (''id1'' @ extname ''u1.tif''))"
    by (simp add: demo_env_def)
  have d: "distinct (map fst (temp upload_world))"
    by (simp add: upload_world_def)
  have q: "\<not> readdir_fails demo_env
      \<and> (\<forall>f \<in> fst ` set (temp upload_world).
            \<not> stat_fails demo_env (TempPath f) \<and> \<not> unlink_fails demo_env (TempPath f))"
    by (simp add: demo_env_def)
  have other: "map_of (temp upload_world) ''u2.tif'' = Some RegularFile"
    by (simp add: upload_world_def)
  note main = upload_cleans_whole_temp_directory [OF p m r d]
  from main have "\<exists>d. fst (processUpload demo_env upload_world ''id1'' ''u1.tif'') = Inr d"
    by (rule conjunct1)
  moreover from main q
  have "\<forall>f. map_of (temp (snd (processUpload demo_env upload_world ''id1'' ''u1.tif''))) f
      \<noteq> Some RegularFile"
    by (rule conjunct2 [THEN mp])
  then have "map_of (temp (snd (processUpload demo_env upload_world ''id1'' ''u1.tif''))) ''u2.tif''
      \<noteq> Some RegularFile"
    by (rule spec)
  moreover have "fst ` set (temp upload_world) = {''u1.tif'', ''u2.tif'', ''sub''}"
    by (simp add: upload_world_def)
  moreover have "\<not> stat_fails demo_env (TempPath ''u1.tif'')
      \<and> \<not> unlink_fails demo_env (TempPath ''u1.tif'')
      \<and> \<not> stat_fails demo_env (TempPath ''u2.tif'')
      \<and> \<not> unlink_fails demo_env (TempPath ''u2.tif'')
      \<and> \<not> stat_fails demo_env (TempPath ''sub'')
      \<and> \<not> unlink_fails demo_env (TempPath ''sub'')"
    by (simp add: demo_env_def)
  ultimately show ?thesis
    using p m r d q other by (intro conjI) (erule conjE | assumption)+
qed

lemma upload_survives_failed_cleanup:
  "(\<exists>d. fst (processUpload nounlink_env upload_world ''id1'' ''u1.tif'') = Inr d)
   \<and> temp (snd (processUpload nounlink_env upload_world ''id1'' ''u1.tif''))
       = [(''u2.tif'', RegularFile), (''sub'', Directory)]"
proof -
  have "probe nounlink_env (TempPath ''u1.tif'') = Some demo_metadata"
    and "map_of (temp upload_world) ''u1.tif'' \<noteq> None"
    and "\<not> rename_fails nounlink_env (TempPath ''u1.tif'')
           (OriginalPath (''id1'' @ extname ''u1.tif''))"
    by (simp_all add: nounlink_env_def demo_env_def upload_world_def)
  from processUpload_moved [OF this] show ?thesis
    by (simp add: cleanupTemp_def upload_world_def nounlink_env_def demo_env_def
        fs_stat_def fs_unlink_def AList.delete_eq)
qed

section \<open>Tile requests\<close>

lemma resolveImagePath_originals:
  "originals w' = originals w
     \<Longrightarrow> resolveImagePath env w' imageId = resolveImagePath env w imageId"
  by (simp add: resolveImagePath_def fs_access_def)

lemma resolveImagePath_again:
  assumes "resolveImagePath env w imageId = Inr imagePath"
    and "imageId @ ''.tif'' \<in> set (originals w) \<or> \<not> readdir_originals_fails env'"
  shows "resolveImagePath env' w imageId = Inr imagePath"
proof (cases "imageId @ ''.tif'' \<in> set (originals w)")
  case True
  with assms(1) show ?thesis
    by (simp add: resolveImagePath_exact)
next
  case False
  with assms(2) have readable': "\<not> readdir_originals_fails env'"
    by simp
  from assms(1) False have readable: "\<not> readdir_originals_fails env"
    by (auto simp: resolveImagePath_unreadable)
  from assms(1) show ?thesis
    by (simp only: resolveImagePath_scan [OF False readable]
        resolveImagePath_scan [OF False readable'])
qed

lemma getCachedMetadata_cached:
  "metadataCache w imageId = Some md \<Longrightarrow> getCachedMetadata env w imageId imagePath = (Inr md, w)"
  by (simp add: getCachedMetadata_def)

lemma getCachedMetadata_probed:
  "metadataCache w imageId = None \<Longrightarrow> probe env imagePath = Some md
     \<Longrightarrow> getCachedMetadata env w imageId imagePath
          = (Inr md, w\<lparr>codec_log := codec_log w @ [Probe imagePath],
                       metadataCache := (metadataCache w)(imageId \<mapsto> md)\<rparr>)"
  by (simp add: getCachedMetadata_def getImageMetadata_def)

lemma getCachedMetadata_InrD:
  assumes "getCachedMetadata env w imageId imagePath = (Inr md, w1)"
  shows "metadataCache w1 imageId = Some md"
    and "originals w1 = originals w"
    and "tiles w1 = tiles w"
  using assms
  by (auto simp: getCachedMetadata_def getImageMetadata_def Let_def split: option.splits)

lemma generateTile_InrD:
  assumes "generateTile env w imagePath (TilePath imageId level x y) level x y tileSize
             originalWidth originalHeight = (Inr generated, w2)"
  shows "originals w2 = originals w"
    and "metadataCache w2 = metadataCache w"
    and "(tileRegion level x y tileSize originalWidth originalHeight = None \<and> w2 = w)
         \<or> TilePath imageId level x y \<in> tiles w2"
  using assms
  by (auto simp: generateTile_def Let_def fs_writeFile_def split: option.splits if_splits)

lemma generateTileOnDemand_settled:
  assumes "resolveImagePath env w imageId = Inr imagePath"
    and "metadataCache w imageId = Some md"
    and "TilePath imageId level x y \<in> tiles w
         \<or> tileRegion level x y 256 (md_width md) (md_height md) = None"
  shows "generateTileOnDemand env w imageId level x y = (Inr (TilePath imageId level x y), w)"
  using assms
  by (auto simp: generateTileOnDemand_def getCachedMetadata_cached fs_access_def
      generateTile_def Let_def)

lemma generateTileOnDemand_generated:
  assumes r: "resolveImagePath env w imageId = Inr imagePath"
    and c: "metadataCache w imageId = Some md"
    and t: "TilePath imageId level x y \<notin> tiles w"
    and reg: "tileRegion level x y 256 (md_width md) (md_height md) = Some region"
    and mk: "\<not> mkdir_fails env (TilePath imageId level x y)"
    and ok: "render_ok env imagePath
               (toSourceRegion region (levelScale (md_width md) (md_height md) 256 level)
                  (md_width md) (md_height md))
               (r_width region) (r_height region)"
  shows "fst (generateTileOnDemand env w imageId level x y) = Inr (TilePath imageId level x y)"
    and "metadataCache (snd (generateTileOnDemand env w imageId level x y)) = metadataCache w"
    and "codec_log (snd (generateTileOnDemand env w imageId level x y))
           = codec_log w
             @ [Render imagePath
                  (toSourceRegion region (levelScale (md_width md) (md_height md) 256 level)
                     (md_width md) (md_height md))
                  (r_width region) (r_height region) (TilePath imageId level x y)]"
proof -
  let ?tile = "TilePath imageId level x y"
  let ?src = "toSourceRegion region (levelScale (md_width md) (md_height md) 256 level)
                (md_width md) (md_height md)"
  let ?w' = "w\<lparr>codec_log := codec_log w
               @ [Render imagePath ?src (r_width region) (r_height region) ?tile]\<rparr>"
  from reg mk ok
  have "generateTile env w imagePath ?tile level x y 256 (md_width md) (md_height md)
      = (Inr (Some ?tile), fs_writeFile ?w' ?tile)"
    by (simp add: generateTile_def Let_def)
  with t have "generateTileOnDemand env w imageId level x y = (Inr ?tile, fs_writeFile ?w' ?tile)"
    by (simp add: generateTileOnDemand_def r getCachedMetadata_cached [OF c] fs_access_def
        Let_def)
  then show "fst (generateTileOnDemand env w imageId level x y) = Inr ?tile"
    and "metadataCache (snd (generateTileOnDemand env w imageId level x y)) = metadataCache w"
    and "codec_log (snd (generateTileOnDemand env w imageId level x y))
           = codec_log w @ [Render imagePath ?src (r_width region) (r_height region) ?tile]"
    by (simp_all add: fs_writeFile_def)
qed

lemma generateTileOnDemand_InrD:
  assumes "generateTileOnDemand env w imageId level x y = (Inr p, w')"
  shows "p = TilePath imageId level x y
       \<and> originals w' = originals w
       \<and> (\<exists>imagePath md. resolveImagePath env w' imageId = Inr imagePath
            \<and> metadataCache w' imageId = Some md
            \<and> (TilePath imageId level x y \<in> tiles w'
                \<or> tileRegion level x y 256 (md_width md) (md_height md) = None))"
proof (cases "resolveImagePath env w imageId")
  case (Inl e)
  with assms show ?thesis
    by (simp add: generateTileOnDemand_def)
next
  case (Inr imagePath)
  note r = Inr
  obtain res w1 where m: "getCachedMetadata env w imageId imagePath = (res, w1)"
    by (cases "getCachedMetadata env w imageId imagePath")
  show ?thesis
  proof (cases res)
    case (Inl e)
    with assms r m show ?thesis
      by (simp add: generateTileOnDemand_def)
  next
    case (Inr md)
    with m have m': "getCachedMetadata env w imageId imagePath = (Inr md, w1)"
      by simp
    note m1 = getCachedMetadata_InrD [OF m']
    from r have r1: "resolveImagePath env w1 imageId = Inr imagePath"
      by (simp only: resolveImagePath_originals [OF m1(2)])
    show ?thesis
    proof (cases "TilePath imageId level x y \<in> tiles w1")
      case True
      with assms r m' have "p = TilePath imageId level x y" and "w' = w1"
        by (simp_all add: generateTileOnDemand_def fs_access_def)
      with True m1(1,2) r1 show ?thesis
        by blast
    next
      case False
      obtain gres w2 where g: "generateTile env w1 imagePath (TilePath imageId level x y)
          level x y 256 (md_width md) (md_height md) = (gres, w2)"
        by (cases "generateTile env w1 imagePath (TilePath imageId level x y)
          level x y 256 (md_width md) (md_height md)")
      show ?thesis
      proof (cases gres)
        case (Inl e)
        with assms r m' False g show ?thesis
          by (simp add: generateTileOnDemand_def fs_access_def)
      next
        case (Inr generated)
        with assms r m' False g have p: "p = TilePath imageId level x y" and w': "w' = w2"
          by (simp_all add: generateTileOnDemand_def fs_access_def)
        from g Inr have g': "generateTile env w1 imagePath (TilePath imageId level x y)
            level x y 256 (md_width md) (md_height md) = (Inr generated, w2)"
          by simp
        note g1 = generateTile_InrD [OF g']
        from r1 have "resolveImagePath env w2 imageId = Inr imagePath"
          by (simp only: resolveImagePath_originals [OF g1(1)])
        moreover from g1(2) m1(1) have "metadataCache w2 imageId = Some md"
          by simp
        moreover from g1(3)
        have "TilePath imageId level x y \<in> tiles w2
            \<or> tileRegion level x y 256 (md_width md) (md_height md) = None"
          by auto
        moreover from g1(1) m1(2) have "originals w2 = originals w"
          by simp
        ultimately show ?thesis
          unfolding p w' by blast
      qed
    qed
  qed
qed

text \<open>
  Claim C2, at its own example. The image is 10000 x 8000, its metadata is cached, no tile
  is stored. At level 0 the scaled width is 157, so tile (0, 1, 0) has no region and
  \<open>generateTile\<close> returns \<^verbatim>\<open>null\<close> without touching the state. \<open>generateTileOnDemand\<close>
  drops that value and returns the tile path as a success, although no file exists at
  that path: it does not fail.
\<close>

theorem out_of_bounds_request_returns_path:
  "scaledDim 10000 (levelScale 10000 8000 256 0) = 157
   \<and> tileRegion 0 1 0 256 10000 8000 = None
   \<and> generateTile demo_env warm_world (OriginalPath ''img.tif'') (TilePath ''img'' 0 1 0)
        0 1 0 256 10000 8000 = (Inr None, warm_world)
   \<and> generateTileOnDemand demo_env warm_world ''img'' 0 1 0
        = (Inr (TilePath ''img'' 0 1 0), warm_world)
   \<and> TilePath ''img'' 0 1 0 \<notin> tiles warm_world"
proof -
  have width: "scaledDim 10000 (levelScale 10000 8000 256 0) = 157"
    by code_simp
  have region: "tileRegion 0 1 0 256 10000 8000 = None"
    by code_simp
  have resolved: "resolveImagePath demo_env warm_world ''img'' = Inr (OriginalPath ''img.tif'')"
    by (simp add: resolveImagePath_def fs_access_def warm_world_def)
  have cached: "metadataCache warm_world ''img'' = Some demo_metadata"
    by (simp add: warm_world_def)
  have dims: "md_width demo_metadata = 10000" "md_height demo_metadata = 8000"
    by (simp_all add: demo_metadata_def)
  have "generateTileOnDemand demo_env warm_world ''img'' 0 1 0
      = (Inr (TilePath ''img'' 0 1 0), warm_world)"
    by (rule generateTileOnDemand_settled [OF resolved cached]) (simp add: dims region)
  moreover have "generateTile demo_env warm_world (OriginalPath ''img.tif'')
      (TilePath ''img'' 0 1 0) 0 1 0 256 10000 8000 = (Inr None, warm_world)"
    by (simp add: generateTile_def region)
  moreover have "TilePath ''img'' 0 1 0 \<notin> tiles warm_world"
    by (simp add: warm_world_def)
  ultimately show ?thesis
    using width region by simp
qed

text \<open>
  Claim C3 as stated fails. The tile (6, 0, 0) is on disk in both states. After a restart
  the metadata cache is empty, and the request probes the source image with the codec
  before it looks at the tile; when that probe rejects, the request fails. When the source
  image cannot be resolved, the request fails with \<open>NotFound\<close> although the tile exists.
\<close>

theorem cache_hit_not_immediate_counterexample:
  "TilePath ''img'' 6 0 0 \<in> tiles restart_world
   \<and> codec_log restart_world = []
   \<and> codec_log (snd (generateTileOnDemand demo_env restart_world ''img'' 6 0 0))
       = [Probe (OriginalPath ''img.tif'')]
   \<and> fst (generateTileOnDemand corrupt_env restart_world ''img'' 6 0 0) = Inl CodecFailure
   \<and> TilePath ''img'' 6 0 0 \<in> tiles orphan_world
   \<and> fst (generateTileOnDemand demo_env orphan_world ''img'' 6 0 0) = Inl (NotFound ''img'')"
proof -
  have resolved: "resolveImagePath env restart_world ''img'' = Inr (OriginalPath ''img.tif'')"
    for env
    by (simp add: resolveImagePath_def fs_access_def restart_world_def)
  have empty: "metadataCache restart_world ''img'' = None"
    by (simp add: restart_world_def)
  have stored: "TilePath ''img'' 6 0 0 \<in> tiles restart_world"
    by (simp add: restart_world_def)
  have log: "codec_log restart_world = []"
    by (simp add: restart_world_def)
  have "probe demo_env (OriginalPath ''img.tif'') = Some demo_metadata"
    by (simp add: demo_env_def)
  note probed = getCachedMetadata_probed [OF empty this]
  have "generateTileOnDemand demo_env restart_world ''img'' 6 0 0
      = (Inr (TilePath ''img'' 6 0 0),
         restart_world\<lparr>codec_log := codec_log restart_world @ [Probe (OriginalPath ''img.tif'')],
           metadataCache := (metadataCache restart_world)(''img'' \<mapsto> demo_metadata)\<rparr>)"
    by (simp add: generateTileOnDemand_def resolved probed fs_access_def stored)
  then have probe_made: "codec_log (snd (generateTileOnDemand demo_env restart_world ''img'' 6 0 0))
      = [Probe (OriginalPath ''img.tif'')]"
    by (simp add: log)
  have "probe corrupt_env (OriginalPath ''img.tif'') = None"
    by (simp add: corrupt_env_def demo_env_def)
  then have "getCachedMetadata corrupt_env restart_world ''img'' (OriginalPath ''img.tif'')
      = (Inl CodecFailure,
         restart_world\<lparr>codec_log := codec_log restart_world @ [Probe (OriginalPath ''img.tif'')]\<rparr>)"
    by (simp add: getCachedMetadata_def getImageMetadata_def empty)
  then have probe_rejected: "fst (generateTileOnDemand corrupt_env restart_world ''img'' 6 0 0)
      = Inl CodecFailure"
    by (simp add: generateTileOnDemand_def resolved)
  have "resolveImagePath demo_env orphan_world ''img'' = Inl (NotFound ''img'')"
    by (simp add: resolveImagePath_def fs_access_def orphan_world_def demo_env_def)
  then have unresolved: "fst (generateTileOnDemand demo_env orphan_world ''img'' 6 0 0)
      = Inl (NotFound ''img'')"
    by (simp add: generateTileOnDemand_def)
  have orphan: "TilePath ''img'' 6 0 0 \<in> tiles orphan_world"
    by (simp add: orphan_world_def)
  from stored log probe_made probe_rejected orphan unresolved show ?thesis
    by (intro conjI)
qed

text \<open>
  Claim C3, amended. When a file exists at the cache path, the image id resolves to a
  source file and the metadata of the image is cached or its probe succeeds, the request
  returns the cache path, renders nothing and writes no tile; the only codec call is one
  metadata probe, made exactly when the metadata is not cached. And for every valid
  coordinate on the domain of the geometry (the tile has a region under the cached
  metadata of the image), whenever a request succeeds, the tile file exists afterwards, and
  the same request made again, in an outside world in which the image still resolves (it
  is stored as \<^verbatim>\<open>imageId.tif\<close>, or the directory can be listed), returns the same path and
  leaves the state as it is: the second call makes no codec call at all.
\<close>

theorem cached_tile_served_without_render:
  "(resolveImagePath env w imageId = Inr imagePath
      \<and> TilePath imageId level x y \<in> tiles w
      \<and> (metadataCache w imageId \<noteq> None \<or> probe env imagePath \<noteq> None)
    \<longrightarrow> fst (generateTileOnDemand env w imageId level x y) = Inr (TilePath imageId level x y)
       \<and> tiles (snd (generateTileOnDemand env w imageId level x y)) = tiles w
       \<and> codec_log (snd (generateTileOnDemand env w imageId level x y))
           = codec_log w @ (if metadataCache w imageId = None then [Probe imagePath] else []))
   \<and> (fst (generateTileOnDemand env w imageId level x y) = Inr p
       \<and> metadataCache (snd (generateTileOnDemand env w imageId level x y)) imageId = Some md
       \<and> dims_in_range (md_width md) (md_height md) 256
       \<and> level_in_range level \<and> index_in_range x \<and> index_in_range y
       \<and> tileRegion level x y 256 (md_width md) (md_height md) \<noteq> None
       \<and> (imageId @ ''.tif'' \<in> set (originals w) \<or> \<not> readdir_originals_fails env')
    \<longrightarrow> p = TilePath imageId level x y
       \<and> p \<in> tiles (snd (generateTileOnDemand env w imageId level x y))
       \<and> generateTileOnDemand env' (snd (generateTileOnDemand env w imageId level x y))
            imageId level x y
          = (Inr p, snd (generateTileOnDemand env w imageId level x y)))"
proof (rule conjI)
  show "resolveImagePath env w imageId = Inr imagePath
      \<and> TilePath imageId level x y \<in> tiles w
      \<and> (metadataCache w imageId \<noteq> None \<or> probe env imagePath \<noteq> None)
    \<longrightarrow> fst (generateTileOnDemand env w imageId level x y) = Inr (TilePath imageId level x y)
       \<and> tiles (snd (generateTileOnDemand env w imageId level x y)) = tiles w
       \<and> codec_log (snd (generateTileOnDemand env w imageId level x y))
           = codec_log w @ (if metadataCache w imageId = None then [Probe imagePath] else [])"
  proof (rule impI)
    assume a: "resolveImagePath env w imageId = Inr imagePath
        \<and> TilePath imageId level x y \<in> tiles w
        \<and> (metadataCache w imageId \<noteq> None \<or> probe env imagePath \<noteq> None)"
    then have r: "resolveImagePath env w imageId = Inr imagePath"
      and t: "TilePath imageId level x y \<in> tiles w"
      by simp_all
    show "fst (generateTileOnDemand env w imageId level x y) = Inr (TilePath imageId level x y)
         \<and> tiles (snd (generateTileOnDemand env w imageId level x y)) = tiles w
         \<and> codec_log (snd (generateTileOnDemand env w imageId level x y))
             = codec_log w @ (if metadataCache w imageId = None then [Probe imagePath] else [])"
    proof (cases "metadataCache w imageId")
      case (Some md)
      from t have "TilePath imageId level x y \<in> tiles w
          \<or> tileRegion level x y 256 (md_width md) (md_height md) = None"
        by (rule disjI1)
      from generateTileOnDemand_settled [OF r Some this] Some show ?thesis
        by simp
    next
      case None
      with a obtain md where "probe env imagePath = Some md"
        by auto
      note probed = getCachedMetadata_probed [OF None this]
      have "generateTileOnDemand env w imageId level x y
          = (Inr (TilePath imageId level x y),
             w\<lparr>codec_log := codec_log w @ [Probe imagePath],
               metadataCache := (metadataCache w)(imageId \<mapsto> md)\<rparr>)"
        by (simp add: generateTileOnDemand_def r probed fs_access_def t)
      with None show ?thesis
        by simp
    qed
  qed
next
  let ?w' = "snd (generateTileOnDemand env w imageId level x y)"
  show "fst (generateTileOnDemand env w imageId level x y) = Inr p
       \<and> metadataCache ?w' imageId = Some md
       \<and> dims_in_range (md_width md) (md_height md) 256
       \<and> level_in_range level \<and> index_in_range x \<and> index_in_range y
       \<and> tileRegion level x y 256 (md_width md) (md_height md) \<noteq> None
       \<and> (imageId @ ''.tif'' \<in> set (originals w) \<or> \<not> readdir_originals_fails env')
    \<longrightarrow> p = TilePath imageId level x y
       \<and> p \<in> tiles ?w'
       \<and> generateTileOnDemand env' ?w' imageId level x y = (Inr p, ?w')"
  proof (rule impI)
    assume a: "fst (generateTileOnDemand env w imageId level x y) = Inr p
       \<and> metadataCache ?w' imageId = Some md
       \<and> dims_in_range (md_width md) (md_height md) 256
       \<and> level_in_range level \<and> index_in_range x \<and> index_in_range y
       \<and> tileRegion level x y 256 (md_width md) (md_height md) \<noteq> None
       \<and> (imageId @ ''.tif'' \<in> set (originals w) \<or> \<not> readdir_originals_fails env')"
    then have first: "generateTileOnDemand env w imageId level x y = (Inr p, ?w')"
      by (simp add: prod_eq_iff)
    from a have cached: "metadataCache ?w' imageId = Some md"
      and valid: "tileRegion level x y 256 (md_width md) (md_height md) \<noteq> None"
      and again: "imageId @ ''.tif'' \<in> set (originals w) \<or> \<not> readdir_originals_fails env'"
      by simp_all
    from generateTileOnDemand_InrD [OF first]
    obtain imagePath md' where p: "p = TilePath imageId level x y"
      and same: "originals ?w' = originals w"
      and r: "resolveImagePath env ?w' imageId = Inr imagePath"
      and c: "metadataCache ?w' imageId = Some md'"
      and t: "TilePath imageId level x y \<in> tiles ?w'
           \<or> tileRegion level x y 256 (md_width md') (md_height md') = None"
      by blast
    from c cached have "md' = md"
      by simp
    with t valid have stored: "TilePath imageId level x y \<in> tiles ?w'"
      by simp
    from again same
    have "imageId @ ''.tif'' \<in> set (originals ?w') \<or> \<not> readdir_originals_fails env'"
      by simp
    from resolveImagePath_again [OF r this]
    have r': "resolveImagePath env' ?w' imageId = Inr imagePath" .
    from stored have "TilePath imageId level x y \<in> tiles ?w'
        \<or> tileRegion level x y 256 (md_width md) (md_height md) = None"
      by (rule disjI1)
    from generateTileOnDemand_settled [OF r' cached this] p stored
    show "p = TilePath imageId level x y
       \<and> p \<in> tiles ?w'
       \<and> generateTileOnDemand env' ?w' imageId level x y = (Inr p, ?w')"
      by simp
  qed
qed

theorem cached_tile_served_without_render_witness:
  "resolveImagePath demo_env restart_world ''img'' = Inr (OriginalPath ''img.tif'')
   \<and> TilePath ''img'' 6 0 0 \<in> tiles restart_world
   \<and> probe demo_env (OriginalPath ''img.tif'') \<noteq> None
   \<and> fst (generateTileOnDemand demo_env restart_world ''img'' 6 0 0)
       = Inr (TilePath ''img'' 6 0 0)
   \<and> tiles (snd (generateTileOnDemand demo_env restart_world ''img'' 6 0 0))
       = tiles restart_world
   \<and> TilePath ''img'' 6 0 0 \<notin> tiles warm_world
   \<and> fst (generateTileOnDemand demo_env warm_world ''img'' 6 0 0) = Inr (TilePath ''img'' 6 0 0)
   \<and> metadataCache (snd (generateTileOnDemand demo_env warm_world ''img'' 6 0 0)) ''img''
       = Some demo_metadata
   \<and> dims_in_range (md_width demo_metadata) (md_height demo_metadata) 256
   \<and> level_in_range 6 \<and> index_in_range 0
   \<and> tileRegion 6 0 0 256 (md_width demo_metadata) (md_height demo_metadata) \<noteq> None
   \<and> ''img'' @ ''.tif'' \<in> set (originals warm_world)
   \<and> TilePath ''img'' 6 0 0 \<in> tiles (snd (generateTileOnDemand demo_env warm_world ''img'' 6 0 0))
   \<and> generateTileOnDemand noreaddir_env
        (snd (generateTileOnDemand demo_env warm_world ''img'' 6 0 0)) ''img'' 6 0 0
       = (Inr (TilePath ''img'' 6 0 0),
          snd (generateTileOnDemand demo_env warm_world ''img'' 6 0 0))"
proof -
  have resolved: "resolveImagePath demo_env restart_world ''img'' = Inr (OriginalPath ''img.tif'')"
    by (simp add: resolveImagePath_def fs_access_def restart_world_def)
  have stored: "TilePath ''img'' 6 0 0 \<in> tiles restart_world"
    by (simp add: restart_world_def)
  have probed: "probe demo_env (OriginalPath ''img.tif'') \<noteq> None"
    by (simp add: demo_env_def)
  from resolved stored probed
  have hit: "fst (generateTileOnDemand demo_env restart_world ''img'' 6 0 0)
       = Inr (TilePath ''img'' 6 0 0)
     \<and> tiles (snd (generateTileOnDemand demo_env restart_world ''img'' 6 0 0))
       = tiles restart_world"
    using cached_tile_served_without_render
      [of demo_env restart_world "''img''" "OriginalPath ''img.tif''" 6 0 0, THEN conjunct1]
    by blast
  have resolved': "resolveImagePath demo_env warm_world ''img'' = Inr (OriginalPath ''img.tif'')"
    by (simp add: resolveImagePath_def fs_access_def warm_world_def)
  have cached: "metadataCache warm_world ''img'' = Some demo_metadata"
    by (simp add: warm_world_def)
  have missing: "TilePath ''img'' 6 0 0 \<notin> tiles warm_world"
    by (simp add: warm_world_def)
  have md: "md_width demo_metadata = 10000" "md_height demo_metadata = 8000"
    by (simp_all add: demo_metadata_def)
  have "tileRegion 6 0 0 256 10000 8000
      = Some \<lparr>r_left = 0, r_top = 0, r_width = 256, r_height = 256\<rparr>"
    by code_simp
  then have region: "tileRegion 6 0 0 256 (md_width demo_metadata) (md_height demo_metadata)
      = Some \<lparr>r_left = 0, r_top = 0, r_width = 256, r_height = 256\<rparr>"
    by (simp only: md)
  have mk: "\<not> mkdir_fails demo_env (TilePath ''img'' 6 0 0)"
    by (simp add: demo_env_def)
  have ok: "render_ok demo_env (OriginalPath ''img.tif'')
      (toSourceRegion \<lparr>r_left = 0, r_top = 0, r_width = 256, r_height = 256\<rparr>
         (levelScale (md_width demo_metadata) (md_height demo_metadata) 256 6)
         (md_width demo_metadata) (md_height demo_metadata))
      (r_width \<lparr>r_left = 0, r_top = 0, r_width = 256, r_height = 256\<rparr>)
      (r_height \<lparr>r_left = 0, r_top = 0, r_width = 256, r_height = 256\<rparr>)"
    by (simp add: demo_env_def)
  note generated = generateTileOnDemand_generated [OF resolved' cached missing region mk ok]
  from generated(2) cached
  have cached': "metadataCache (snd (generateTileOnDemand demo_env warm_world ''img'' 6 0 0)) ''img''
      = Some demo_metadata"
    by simp
  have dims: "dims_in_range (md_width demo_metadata) (md_height demo_metadata) 256"
    by (simp add: md dims_in_range_def)
  have level: "level_in_range 6"
    by (simp add: level_in_range_def)
  have index: "index_in_range 0"
    by (simp add: index_in_range_def)
  from region
  have valid: "tileRegion 6 0 0 256 (md_width demo_metadata) (md_height demo_metadata) \<noteq> None"
    by simp
  have exact: "''img'' @ ''.tif'' \<in> set (originals warm_world)"
    by (simp add: warm_world_def)
  from generated(1) cached' dims level index valid exact
  have twice: "TilePath ''img'' 6 0 0 = TilePath ''img'' 6 0 0
     \<and> TilePath ''img'' 6 0 0 \<in> tiles (snd (generateTileOnDemand demo_env warm_world ''img'' 6 0 0))
     \<and> generateTileOnDemand noreaddir_env
          (snd (generateTileOnDemand demo_env warm_world ''img'' 6 0 0)) ''img'' 6 0 0
        = (Inr (TilePath ''img'' 6 0 0),
           snd (generateTileOnDemand demo_env warm_world ''img'' 6 0 0))"
    by (intro cached_tile_served_without_render
      [of demo_env warm_world "''img''" _ 6 0 0 "TilePath ''img'' 6 0 0" demo_metadata
          noreaddir_env, THEN conjunct2, THEN mp] conjI disjI1)
  from resolved stored probed hit missing generated(1) cached' dims level index valid exact twice
  show ?thesis
    by (intro conjI) (erule conjE | assumption)+
qed

end
